theory Spec2Isabelle
  imports Main "HOL-Library.Multiset"
begin

section \<open>The DOCX container writer of calibre (\<^verbatim>\<open>calibre/ebooks/docx/writer/container.py\<close>)\<close>

text \<open>
  The module is Python 2 code (\<^verbatim>\<open>iteritems\<close>, \<^verbatim>\<open>#!/usr/bin/env python2\<close>). It is embedded
  function by function. Mutation of \<^verbatim>\<open>self\<close> is explicit state passing, exceptions are
  values of a sum type, and the names the module imports from the rest of calibre are the
  fields of one record of imported names.
\<close>

subsection \<open>Python values the module relies on\<close>

datatype error = AttributeError | KeyError | ValueError | ResourceError string

text \<open>
  \<^verbatim>\<open>'%d' % n\<close> for a non-negative integer: the decimal digits, most significant first.
\<close>

definition digit :: "nat \<Rightarrow> char" where
  "digit d = ''0123456789'' ! d"

fun fmt_d :: "nat \<Rightarrow> string" where
  "fmt_d n = (if n < 10 then [digit n] else fmt_d (n div 10) @ [digit (n mod 10)])"

declare fmt_d.simps [simp del]

text \<open>\<^verbatim>\<open>'%0wd' % n\<close>: the decimal digits, padded with zeros on the left to width \<open>w\<close>.\<close>

definition fmt_0d :: "nat \<Rightarrow> nat \<Rightarrow> string" where
  "fmt_0d w n = replicate (w - length (fmt_d n)) (CHR ''0'') @ fmt_d n"

text \<open>
  \<^verbatim>\<open>s.rpartition(c)\<close> for a separator of one character: the text before the last
  occurrence, the separator, the text after it; two empty strings and \<open>s\<close> itself when the
  separator does not occur.
\<close>

definition rpartition :: "string \<Rightarrow> char \<Rightarrow> string \<times> string \<times> string" where
  "rpartition s c =
     (if c \<in> set s
      then (rev (tl (dropWhile (\<lambda>x. x \<noteq> c) (rev s))), [c],
            rev (takeWhile (\<lambda>x. x \<noteq> c) (rev s)))
      else ([], [], s))"

text \<open>\<^verbatim>\<open>sep.join(xs)\<close>.\<close>

fun join :: "string \<Rightarrow> string list \<Rightarrow> string" where
  "join sep [] = []"
| "join sep [x] = x"
| "join sep (x # y # ys) = x @ sep @ join sep (y # ys)"

text \<open>
  Truth value of an optional string (\<^verbatim>\<open>if x:\<close>): \<^verbatim>\<open>None\<close> and the empty string are false.
\<close>

definition truthy :: "string option \<Rightarrow> bool" where
  "truthy x = (case x of None \<Rightarrow> False | Some s \<Rightarrow> s \<noteq> [])"

text \<open>\<^verbatim>\<open>a or b\<close> on optional strings.\<close>

definition py_or :: "string option \<Rightarrow> string option \<Rightarrow> string option" where
  "py_or a b = (if truthy a then a else b)"

text \<open>
  The strings \<^verbatim>\<open>lxml\<close> accepts as the text of an element or the value of an attribute:
  those without a NUL byte or a control character other than tab, line feed and carriage
  return. Setting any other string raises \<open>ValueError\<close>. A text may also be \<^verbatim>\<open>None\<close>.
  A character of the model is a code point below 256; among these, the ones below 32
  other than 9, 10 and 13 are the ones \<^verbatim>\<open>lxml\<close> rejects.
\<close>

definition xml_char :: "char \<Rightarrow> bool" where
  "xml_char c = (32 \<le> (of_char c :: nat) \<or> c = CHR 0x09 \<or> c = CHR 0x0A \<or> c = CHR 0x0D)"

definition xml_valid :: "string \<Rightarrow> bool" where
  "xml_valid s = list_all xml_char s"

definition opt_valid :: "string option \<Rightarrow> bool" where
  "opt_valid x = (case x of None \<Rightarrow> True | Some s \<Rightarrow> xml_valid s)"

text \<open>
  The arguments of a call are evaluated from left to right; the first one that raises
  ends the call.
\<close>

fun collect :: "(error + 'a) list \<Rightarrow> error + 'a list" where
  "collect [] = Inr []"
| "collect (Inl err # xs) = Inl err"
| "collect (Inr x # xs) = (case collect xs of Inl err \<Rightarrow> Inl err | Inr ys \<Rightarrow> Inr (x # ys))"

text \<open>
  A \<^verbatim>\<open>dict\<close> is the list of its items in insertion order, with distinct keys.
  \<^verbatim>\<open>d.get(k)\<close> is \<open>dict_get\<close>, \<^verbatim>\<open>d[k] = v\<close> is \<open>dict_setitem\<close> (an existing key keeps its
  place), \<^verbatim>\<open>len(d)\<close> is the length of the list, and a dict display \<^verbatim>\<open>{k1: v1, ...}\<close> stores
  its items from left to right.
\<close>

definition dict_get :: "('k \<times> 'v) list \<Rightarrow> 'k \<Rightarrow> 'v option" where
  "dict_get d k = map_of d k"

fun dict_setitem :: "('k \<times> 'v) list \<Rightarrow> 'k \<Rightarrow> 'v \<Rightarrow> ('k \<times> 'v) list" where
  "dict_setitem [] k v = [(k, v)]"
| "dict_setitem ((k', v') # d) k v =
     (if k' = k then (k, v) # d else (k', v') # dict_setitem d k v)"

definition dict_display :: "('k \<times> 'v) list \<Rightarrow> ('k \<times> 'v) list" where
  "dict_display kvs = foldl (\<lambda>d (k, v). dict_setitem d k v) [] kvs"

text \<open>
  Iterating over a Python 2 \<^verbatim>\<open>dict\<close> or \<^verbatim>\<open>set\<close> visits every item once, in the order of
  the hash table, which the program does not control. The order is an explicit parameter
  \<open>p\<close>: any function on item lists. Where \<open>p\<close> does not return a rearrangement of the items
  it is ignored, so \<open>iter_order p xs\<close> is always a permutation of \<open>xs\<close>.
\<close>

definition iter_order :: "('a list \<Rightarrow> 'a list) \<Rightarrow> 'a list \<Rightarrow> 'a list" where
  "iter_order p xs = (if mset (p xs) = mset xs then p xs else xs)"

subsection \<open>XML trees (\<^verbatim>\<open>lxml.etree\<close> elements)\<close>

text \<open>
  An element has a qualified tag, attributes, an optional text (\<open>etext\<close>, the
  \<^verbatim>\<open>.text\<close> of lxml) and children.
  \<^verbatim>\<open>xml2str\<close> serialises a tree with an XML declaration; the model keeps the serialised
  document as the tree it was made from. Other parts of the archive are raw bytes.
  Attributes are listed in the order of the source text and read by name only; the
  namespace prefix maps (\<^verbatim>\<open>nsmap\<close>) of the elements are left out. The tags are
  qualified names built from calibre's table of namespace URIs and from names that are
  literals of the source; they are tags \<^verbatim>\<open>lxml\<close> accepts.
\<close>

datatype xml = Element (tag: string) (attrib: "(string \<times> string) list")
  (etext: "string option") (children: "xml list")

datatype blob = XmlDocument xml | Bytes string

definition xml2str :: "xml \<Rightarrow> blob" where
  "xml2str root = XmlDocument root"

text \<open>\<^verbatim>\<open>'{%s}%s' % (namespace, name)\<close>: the qualified name of an element.\<close>

definition qname :: "string \<Rightarrow> string \<Rightarrow> string" where
  "qname namespace name = ''{'' @ namespace @ ''}'' @ name"

text \<open>\<^verbatim>\<open>root.append(child)\<close>.\<close>

definition append_child :: "xml \<Rightarrow> xml \<Rightarrow> xml" where
  "append_child root child =
     Element (tag root) (attrib root) (etext root) (children root @ [child])"

subsection \<open>Names imported from the rest of calibre\<close>

text \<open>
  The metadata record that \<^verbatim>\<open>to_book_metadata\<close> returns, with the fields the module reads.
\<close>

record Metadata =
  title :: string
  authors :: "string list"
  tags :: "string list"
  comments :: "string option"
  languages :: "string list"
  publisher :: "string option"

text \<open>
  The imported constants and functions are not part of this module; they are the fields
  of \<open>env\<close>. \<open>guess_type\<close> is the first component of what \<^verbatim>\<open>calibre.guess_type\<close>
  returns. The four \<open>iter_\<close> fields are the hash-table orders of the item types the
  module iterates over.
\<close>

record env =
  namespaces :: "string \<Rightarrow> string"
  STYLES :: string
  WEB_SETTINGS :: string
  IMAGES :: string
  FONTS :: string
  appname :: string
  numeric_version :: "nat \<times> nat \<times> nat"
  guess_type :: "string \<Rightarrow> string option"
  authors_to_string :: "string list \<Rightarrow> string"
  canonicalize_lang :: "string \<Rightarrow> string option"
  lang_as_iso639_1 :: "string option \<Rightarrow> string option"
  iter_strs :: "string list \<Rightarrow> string list"
  iter_pairs :: "(string \<times> string) list \<Rightarrow> (string \<times> string) list"
  iter_rels :: "((string \<times> string \<times> string option) \<times> string) list
                  \<Rightarrow> ((string \<times> string \<times> string option) \<times> string) list"
  iter_images :: "(string \<times> (error + string)) list \<Rightarrow> (string \<times> (error + string)) list"

subsection \<open>\<^verbatim>\<open>update_doc_props\<close>\<close>

text \<open>
  \<open>root\<close> is a mutable element: a call returns the exception it raised, if any, and
  the document as the call left it.

  \<^verbatim>\<open>setm\<close> makes the new element, removes every child of \<open>root\<close> whose tag is the new
  element's tag, sets the text of the new element and appends it. Setting a text
  \<^verbatim>\<open>lxml\<close> rejects raises \<open>ValueError\<close>, after the removal and before the append.
\<close>

definition setm :: "env \<Rightarrow> xml \<Rightarrow> string \<Rightarrow> string option \<Rightarrow> string \<Rightarrow> error option \<times> xml" where
  "setm e root name txt ns =
     (let ans_tag = qname (namespaces e ns) name;
          kept = filter (\<lambda>child. tag child \<noteq> ans_tag) (children root)
      in if opt_valid txt
         then (None, Element (tag root) (attrib root) (etext root)
                       (kept @ [Element ans_tag [] txt []]))
         else (Some ValueError, Element (tag root) (attrib root) (etext root) kept))"

text \<open>A further statement runs only if the ones before it raised nothing.\<close>

definition and_then :: "error option \<times> xml \<Rightarrow> (xml \<Rightarrow> error option \<times> xml) \<Rightarrow> error option \<times> xml" where
  "and_then r f = (case r of (None, root) \<Rightarrow> f root | (Some err, root) \<Rightarrow> (Some err, root))"

definition update_doc_props :: "env \<Rightarrow> xml \<Rightarrow> Metadata \<Rightarrow> error option \<times> xml" where
  "update_doc_props e root m =
     and_then (setm e root ''title'' (Some (title m)) ''dc'') (\<lambda>r1.
     and_then (setm e r1 ''creator'' (Some (authors_to_string e (authors m))) ''dc'') (\<lambda>r2.
     and_then (if tags m \<noteq> [] then setm e r2 ''keywords'' (Some (join '', '' (tags m))) ''cp''
               else (None, r2)) (\<lambda>r3.
     and_then (if truthy (comments m) then setm e r3 ''description'' (comments m) ''dc''
               else (None, r3)) (\<lambda>r4.
       (case languages m of
          [] \<Rightarrow> (None, r4)
        | l0 # _ \<Rightarrow>
            (let l = canonicalize_lang e l0
             in setm e r4 ''language'' (py_or (lang_as_iso639_1 e l) l) ''dc''))))))"

subsection \<open>\<^verbatim>\<open>DocumentRelationships\<close>\<close>

type_synonym rkey = "string \<times> string \<times> string option"

record DocumentRelationships =
  rmap :: "(rkey \<times> string) list"

definition get_relationship_id ::
  "DocumentRelationships \<Rightarrow> string \<Rightarrow> string \<Rightarrow> string option \<Rightarrow> string option" where
  "get_relationship_id self target rtype target_mode =
     dict_get (rmap self) (target, rtype, target_mode)"

definition add_relationship ::
  "DocumentRelationships \<Rightarrow> string \<Rightarrow> string \<Rightarrow> string option
     \<Rightarrow> string \<times> DocumentRelationships" where
  "add_relationship self target rtype target_mode =
     (case get_relationship_id self target rtype target_mode of
        None \<Rightarrow>
          (let ans = ''rId'' @ fmt_d (length (rmap self) + 1)
           in (ans, self\<lparr>rmap := dict_setitem (rmap self) (target, rtype, target_mode) ans\<rparr>))
      | Some ans \<Rightarrow> (ans, self))"

definition add_image :: "env \<Rightarrow> DocumentRelationships \<Rightarrow> string \<Rightarrow> string \<times> DocumentRelationships" where
  "add_image e self target = add_relationship self target (IMAGES e) None"

text \<open>
  The constructor registers the items of a dict display, in the order the dict yields them.
\<close>

definition DocumentRelationships_init :: "env \<Rightarrow> DocumentRelationships" where
  "DocumentRelationships_init e =
     foldl (\<lambda>self (typ, target). snd (add_relationship self target typ None))
       \<lparr>rmap = []\<rparr>
       (iter_order (iter_pairs e)
          (dict_display [(STYLES e, ''styles.xml''), (WEB_SETTINGS e, ''webSettings.xml''),
                         (FONTS e, ''fontTable.xml'')]))"

text \<open>
  The element of one item, and the strings of an item that become attribute values.
  \<^verbatim>\<open>E.Relationship(Id=rid, Type=rtype, Target=target)\<close> and \<^verbatim>\<open>r.set('TargetMode', ...)\<close>
  raise \<open>ValueError\<close> for a value \<^verbatim>\<open>lxml\<close> rejects.
\<close>

definition relationship_element :: "env \<Rightarrow> rkey \<times> string \<Rightarrow> xml" where
  "relationship_element e item =
     (case item of ((target, rtype, target_mode), rid) \<Rightarrow>
        Element (qname (namespaces e ''pr'') ''Relationship'')
          ([(''Id'', rid), (''Type'', rtype), (''Target'', target)] @
           (case target_mode of None \<Rightarrow> [] | Some tm \<Rightarrow> [(''TargetMode'', tm)]))
          None [])"

definition item_valid :: "rkey \<times> string \<Rightarrow> bool" where
  "item_valid item =
     (case item of ((target, rtype, target_mode), rid) \<Rightarrow>
        xml_valid rid \<and> xml_valid rtype \<and> xml_valid target \<and> opt_valid target_mode)"

definition Relationship :: "env \<Rightarrow> rkey \<times> string \<Rightarrow> error + xml" where
  "Relationship e item =
     (if item_valid item then Inr (relationship_element e item) else Inl ValueError)"

definition Relationships :: "env \<Rightarrow> xml" where
  "Relationships e = Element (qname (namespaces e ''pr'') ''Relationships'') [] None []"

text \<open>The loop of \<^verbatim>\<open>serialize\<close>: the first item that raises ends it.\<close>

fun append_relationships :: "env \<Rightarrow> xml \<Rightarrow> (rkey \<times> string) list \<Rightarrow> error + xml" where
  "append_relationships e relationships [] = Inr relationships"
| "append_relationships e relationships (item # items) =
     (case Relationship e item of
        Inl err \<Rightarrow> Inl err
      | Inr r \<Rightarrow> append_relationships e (append_child relationships r) items)"

definition serialize :: "env \<Rightarrow> DocumentRelationships \<Rightarrow> error + blob" where
  "serialize e self =
     (case append_relationships e (Relationships e) (iter_order (iter_rels e) (rmap self)) of
        Inl err \<Rightarrow> Inl err
      | Inr relationships \<Rightarrow> Inr (xml2str relationships))"

subsection \<open>\<^verbatim>\<open>DOCX\<close>\<close>

text \<open>
  The constructor sets \<^verbatim>\<open>document_relationships\<close>, \<^verbatim>\<open>font_table\<close>, \<^verbatim>\<open>embedded_fonts\<close> and
  \<^verbatim>\<open>fonts\<close> (\<^verbatim>\<open>opts\<close> and \<^verbatim>\<open>log\<close> are never read). The attributes \<^verbatim>\<open>images\<close>,
  \<^verbatim>\<open>document\<close> and \<^verbatim>\<open>styles\<close> are set by other modules and \<^verbatim>\<open>mi\<close> by
  \<^verbatim>\<open>convert_metadata\<close>: they are optional fields, \<open>None\<close> while the attribute does not
  exist, and reading a missing attribute raises \<open>AttributeError\<close>.
  An image's \<^verbatim>\<open>data_getter\<close> is modelled by what calling it does: it returns bytes or
  raises.
\<close>

record DOCX =
  document_relationships :: DocumentRelationships
  font_table :: xml
  embedded_fonts :: xml
  fonts :: "(string \<times> string) list"
  images :: "(string \<times> (error + string)) list option"
  document :: "xml option"
  styles :: "xml option"
  mi :: "Metadata option"

definition DOCX_init :: "env \<Rightarrow> DOCX" where
  "DOCX_init e =
     \<lparr>document_relationships = DocumentRelationships_init e,
      font_table = Element (qname (namespaces e ''w'') ''fonts'') [] None [],
      embedded_fonts = Relationships e,
      fonts = [],
      images = None, document = None, styles = None, mi = None\<rparr>"

text \<open>
  \<^verbatim>\<open>E.Name(k1=v1, ...)\<close> of \<^verbatim>\<open>lxml.builder.ElementMaker\<close>: an attribute value that is a
  string is stored; for any other value the maker looks the value's type up in its type
  map, which has no entry for \<^verbatim>\<open>None\<close>, and the lookup raises \<open>KeyError\<close>.
\<close>

fun attribs_of :: "(string \<times> string option) list \<Rightarrow> error + (string \<times> string) list" where
  "attribs_of [] = Inr []"
| "attribs_of ((k, None) # kw) = Inl KeyError"
| "attribs_of ((k, Some v) # kw) =
     (case attribs_of kw of Inl err \<Rightarrow> Inl err | Inr r \<Rightarrow> Inr ((k, v) # r))"

definition ElementMaker :: "string \<Rightarrow> string \<Rightarrow> (string \<times> string option) list \<Rightarrow> error + xml" where
  "ElementMaker namespace name kw =
     (case attribs_of kw of
        Inl err \<Rightarrow> Inl err
      | Inr a \<Rightarrow> Inr (Element (qname namespace name) a None []))"

text \<open>
  An element made from a text child, \<^verbatim>\<open>E.Name('text')\<close>: the maker sets the text, which
  raises \<open>ValueError\<close> for a text \<^verbatim>\<open>lxml\<close> rejects.
\<close>

definition text_element :: "string \<Rightarrow> string \<Rightarrow> string \<Rightarrow> xml" where
  "text_element namespace name txt = Element (qname namespace name) [] (Some txt) []"

definition E_text :: "string \<Rightarrow> string \<Rightarrow> string \<Rightarrow> error + xml" where
  "E_text namespace name txt =
     (if xml_valid txt then Inr (text_element namespace name txt) else Inl ValueError)"

text \<open>A Python \<^verbatim>\<open>set\<close> of strings is a list without duplicates; \<^verbatim>\<open>s.add(x)\<close>:\<close>

definition set_add :: "string list \<Rightarrow> string \<Rightarrow> string list" where
  "set_add s x = (if x \<in> set s then s else s @ [x])"

definition Override :: "env \<Rightarrow> string \<Rightarrow> string \<Rightarrow> xml" where
  "Override e partname mt =
     Element (qname (namespaces e ''ct'') ''Override'')
       [(''PartName'', partname), (''ContentType'', mt)] None []"

definition Default :: "env \<Rightarrow> string \<Rightarrow> string \<Rightarrow> xml" where
  "Default e ext mt =
     Element (qname (namespaces e ''ct'') ''Default'')
       [(''Extension'', ext), (''ContentType'', mt)] None []"

definition override_parts :: "(string \<times> string) list" where
  "override_parts =
     [(''/word/footnotes.xml'', ''application/vnd.openxmlformats-officedocument.wordprocessingml.footnotes+xml''),
      (''/word/document.xml'', ''application/vnd.openxmlformats-officedocument.wordprocessingml.document.main+xml''),
      (''/word/numbering.xml'', ''application/vnd.openxmlformats-officedocument.wordprocessingml.numbering+xml''),
      (''/word/styles.xml'', ''application/vnd.openxmlformats-officedocument.wordprocessingml.styles+xml''),
      (''/word/endnotes.xml'', ''application/vnd.openxmlformats-officedocument.wordprocessingml.endnotes+xml''),
      (''/word/settings.xml'', ''application/vnd.openxmlformats-officedocument.wordprocessingml.settings+xml''),
      (''/word/theme/theme1.xml'', ''application/vnd.openxmlformats-officedocument.theme+xml''),
      (''/word/fontTable.xml'', ''application/vnd.openxmlformats-officedocument.wordprocessingml.fontTable+xml''),
      (''/word/webSettings.xml'', ''application/vnd.openxmlformats-officedocument.wordprocessingml.webSettings+xml''),
      (''/docProps/core.xml'', ''application/vnd.openxmlformats-package.core-properties+xml''),
      (''/docProps/app.xml'', ''application/vnd.openxmlformats-officedocument.extended-properties+xml'')]"

definition added_init :: "string list" where
  "added_init = [''png'', ''gif'', ''jpeg'', ''jpg'', ''svg'', ''xml'']"

definition default_parts :: "(string \<times> string) list" where
  "default_parts =
     [(''rels'', ''application/vnd.openxmlformats-package.relationships+xml''),
      (''odttf'', ''application/vnd.openxmlformats-officedocument.obfuscatedFont'')]"

text \<open>
  The first loop over \<^verbatim>\<open>added\<close>: one \<^verbatim>\<open>Default\<close> per extension, with whatever
  \<^verbatim>\<open>guess_type\<close> returns as the content type.
\<close>

fun add_guessed_defaults :: "env \<Rightarrow> string list \<Rightarrow> xml \<Rightarrow> error + xml" where
  "add_guessed_defaults e [] types = Inr types"
| "add_guessed_defaults e (ext # exts) types =
     (case ElementMaker (namespaces e ''ct'') ''Default''
             [(''Extension'', Some ext), (''ContentType'', guess_type e (''a.'' @ ext))] of
        Inl err \<Rightarrow> Inl err
      | Inr d \<Rightarrow> add_guessed_defaults e exts (append_child types d))"

text \<open>
  The body of the loop over \<^verbatim>\<open>self.images\<close>, on the pair of \<^verbatim>\<open>added\<close> and \<^verbatim>\<open>types\<close>.
  The attribute values of the manifest are literals of the source, or an extension
  together with the type the lookup gives for it. The lookup is calibre's table of known
  file extensions: it is taken to give no type to a name with a character \<^verbatim>\<open>lxml\<close>
  rejects and to return only types \<^verbatim>\<open>lxml\<close> accepts, so an element of the manifest is
  built from accepted strings and the model has no \<open>ValueError\<close> for it.
\<close>

definition image_default :: "env \<Rightarrow> string list \<times> xml \<Rightarrow> string \<Rightarrow> string list \<times> xml" where
  "image_default e st fname =
     (case st of (added, types) \<Rightarrow>
        (let ext = snd (snd (rpartition fname (CHR ''.'')))
         in if ext \<notin> set added
            then (let added' = set_add added ext
                  in (case guess_type e (''a.'' @ ext) of
                        None \<Rightarrow> (added', types)
                      | Some mt \<Rightarrow>
                          if mt \<noteq> [] then (added', append_child types (Default e ext mt))
                          else (added', types)))
            else (added, types)))"

definition contenttypes :: "env \<Rightarrow> DOCX \<Rightarrow> error + blob" where
  "contenttypes e self =
     (let types0 = Element (qname (namespaces e ''ct'') ''Types'') [] None [];
          types1 = foldl (\<lambda>types (partname, mt). append_child types (Override e partname mt))
                     types0 (iter_order (iter_pairs e) (dict_display override_parts));
          added = added_init
      in (case add_guessed_defaults e (iter_order (iter_strs e) added) types1 of
            Inl err \<Rightarrow> Inl err
          | Inr types2 \<Rightarrow>
              (let st = foldl (\<lambda>(added, types) (ext, mt).
                                 (set_add added ext, append_child types (Default e ext mt)))
                          (added, types2)
                          (iter_order (iter_pairs e) (dict_display default_parts))
               in (case images self of
                     None \<Rightarrow> Inl AttributeError
                   | Some imgs \<Rightarrow>
                       Inr (xml2str (snd (foldl (image_default e) st
                              (map fst (iter_order (iter_images e) imgs)))))))))"

definition appproperties :: "env \<Rightarrow> DOCX \<Rightarrow> error + blob" where
  "appproperties e self =
     (let ep = namespaces e ''ep''
      in (case collect
                [E_text ep ''Application'' (appname e),
                 E_text ep ''AppVersion''
                   (fmt_0d 2 (fst (numeric_version e)) @ ''.'' @
                    fmt_0d 4 (fst (snd (numeric_version e)))),
                 E_text ep ''DocSecurity'' ''0'',
                 E_text ep ''HyperlinksChanged'' ''false'',
                 E_text ep ''LinksUpToDate'' ''true'',
                 E_text ep ''ScaleCrop'' ''false'',
                 E_text ep ''SharedDoc'' ''false''] of
            Inl err \<Rightarrow> Inl err
          | Inr cs \<Rightarrow>
              (let props = Element (qname ep ''Properties'') [] None cs
               in (case mi self of
                     None \<Rightarrow> Inl AttributeError
                   | Some m \<Rightarrow>
                       (case publisher m of
                          None \<Rightarrow> Inr (xml2str props)
                        | Some pub \<Rightarrow>
                            if pub \<noteq> []
                            then (case E_text ep ''Company'' pub of
                                    Inl err \<Rightarrow> Inl err
                                  | Inr company \<Rightarrow> Inr (xml2str (append_child props company)))
                            else Inr (xml2str props))))))"

definition websettings :: "env \<Rightarrow> blob" where
  "websettings e =
     (let w = namespaces e ''w''
      in xml2str (Element (qname w ''webSettings'') [] None
           [Element (qname w ''optimizeForBrowser'') [] None [],
            Element (qname w ''allowPNG'') [] None [],
            Element (qname w ''doNotSaveAsSingleFile'') [] None []]))"

text \<open>\<^verbatim>\<open>containerrels\<close>: a constant byte string, dedented.\<close>

definition containerrels :: blob where
  "containerrels = Bytes
     (''<?xml version='1.0' encoding='utf-8'?>\<newline>'' @
      ''<Relationships xmlns=\"http://schemas.openxmlformats.org/package/2006/relationships\">\<newline>'' @
      ''    <Relationship Id=\"rId3\" Type=\"http://schemas.openxmlformats.org/officeDocument/2006/relationships/extended-properties\" Target=\"docProps/app.xml\"/>\<newline>'' @
      ''    <Relationship Id=\"rId2\" Type=\"http://schemas.openxmlformats.org/package/2006/relationships/metadata/core-properties\" Target=\"docProps/core.xml\"/>\<newline>'' @
      ''    <Relationship Id=\"rId1\" Type=\"http://schemas.openxmlformats.org/officeDocument/2006/relationships/officeDocument\" Target=\"word/document.xml\"/>\<newline>'' @
      ''</Relationships>'')"

subsection \<open>\<^verbatim>\<open>convert_metadata\<close>\<close>

text \<open>
  What \<^verbatim>\<open>utcnow()\<close> returns: a \<^verbatim>\<open>datetime\<close> of the standard library, with its fields.
  \<open>aware\<close> says whether the value carries the UTC time zone (calibre's \<^verbatim>\<open>utcnow\<close> attaches
  it), which makes \<^verbatim>\<open>isoformat\<close> end in the offset \<^verbatim>\<open>+00:00\<close>.
\<close>

record datetime =
  year :: nat
  month :: nat
  day :: nat
  hour :: nat
  minute :: nat
  second :: nat
  microsecond :: nat
  aware :: bool

text \<open>
  \<^verbatim>\<open>datetime.isoformat(sep)\<close>: \<^verbatim>\<open>YYYY-MM-DDTHH:MM:SS.ffffff\<close>, where the standard
  library leaves the fraction out when \<^verbatim>\<open>microsecond\<close> is 0.
\<close>

definition isoformat :: "datetime \<Rightarrow> char \<Rightarrow> string" where
  "isoformat d sep =
     fmt_0d 4 (year d) @ ''-'' @ fmt_0d 2 (month d) @ ''-'' @ fmt_0d 2 (day d) @ [sep] @
     fmt_0d 2 (hour d) @ '':'' @ fmt_0d 2 (minute d) @ '':'' @ fmt_0d 2 (second d) @
     (if microsecond d \<noteq> 0 then ''.'' @ fmt_0d 6 (microsecond d) else []) @
     (if aware d then ''+00:00'' else [])"

text \<open>The timestamp of \<^verbatim>\<open>convert_metadata\<close>, from the value of \<^verbatim>\<open>utcnow()\<close>.\<close>

definition timestamp :: "datetime \<Rightarrow> string" where
  "timestamp now = fst (rpartition (isoformat now (CHR ''T'')) (CHR ''.'')) @ ''Z''"

text \<open>
  The element of one date, and the loop that makes and appends the two of them: the
  attribute value and the text are set, each raising \<open>ValueError\<close> if \<^verbatim>\<open>lxml\<close> rejects it.
\<close>

definition date_element :: "env \<Rightarrow> string \<Rightarrow> string \<Rightarrow> xml" where
  "date_element e x ts =
     Element (qname (namespaces e ''dcterms'') x)
       [(qname (namespaces e ''xsi'') ''type'', ''dcterms:W3CDTF'')] (Some ts) []"

fun append_dates :: "env \<Rightarrow> xml \<Rightarrow> string list \<Rightarrow> string \<Rightarrow> error + xml" where
  "append_dates e cp [] ts = Inr cp"
| "append_dates e cp (x # xs) ts =
     (if xml_valid ''dcterms:W3CDTF'' \<and> xml_valid ts
      then append_dates e (append_child cp (date_element e x ts)) xs ts
      else Inl ValueError)"

text \<open>
  \<open>now\<close> is the value of \<^verbatim>\<open>utcnow()\<close> and \<open>oeb\<close> the book metadata that the round trip of
  \<^verbatim>\<open>oeb.metadata\<close> through an OPF 2 package yields. The result is the serialised core
  properties, or the exception raised, and the assembler as the call left it: \<^verbatim>\<open>mi\<close> is
  assigned before \<^verbatim>\<open>update_doc_props\<close> runs.
\<close>

definition convert_metadata ::
  "env \<Rightarrow> datetime \<Rightarrow> DOCX \<Rightarrow> Metadata \<Rightarrow> (error + blob) \<times> DOCX" where
  "convert_metadata e now self oeb =
     (let cpn = namespaces e ''cp''
      in (case collect [E_text cpn ''revision'' ''1'', E_text cpn ''lastModifiedBy'' ''calibre''] of
            Inl err \<Rightarrow> (Inl err, self)
          | Inr cs \<Rightarrow>
              (let cp = Element (qname cpn ''coreProperties'') [] None cs;
                   ts = timestamp now
               in (case append_dates e cp [''created'', ''modified''] ts of
                     Inl err \<Rightarrow> (Inl err, self)
                   | Inr cp1 \<Rightarrow>
                       (let self1 = self\<lparr>mi := Some oeb\<rparr>
                        in (case update_doc_props e cp1 oeb of
                              (Some err, cp2) \<Rightarrow> (Inl err, self1)
                            | (None, cp2) \<Rightarrow> (Inr (xml2str cp2), self1)))))))"

subsection \<open>\<^verbatim>\<open>write\<close>\<close>

text \<open>
  The archive is the list of the entries written, in the order of the \<^verbatim>\<open>writestr\<close>
  calls. The loop over the images calls each \<^verbatim>\<open>data_getter\<close>; the second component
  of the accumulator is the log of these calls. An exception ends the write.
\<close>

fun write_images ::
  "(string \<times> (error + string)) list \<Rightarrow> (string \<times> blob) list \<times> string list
     \<Rightarrow> error + ((string \<times> blob) list \<times> string list)" where
  "write_images [] acc = Inr acc"
| "write_images ((fname, data_getter) # rest) acc =
     (case data_getter of
        Inl err \<Rightarrow> Inl err
      | Inr data \<Rightarrow> write_images rest (fst acc @ [(fname, Bytes data)], snd acc @ [fname]))"

definition write_fonts :: "env \<Rightarrow> (string \<times> string) list \<Rightarrow> (string \<times> blob) list" where
  "write_fonts e fs = map (\<lambda>(fname, data). (fname, Bytes data)) (iter_order (iter_pairs e) fs)"

text \<open>
  \<^verbatim>\<open>DOCX.write\<close> (\<open>DOCX_write\<close>) returns the archive, the log of the \<^verbatim>\<open>data_getter\<close> calls and the
  assembler as \<^verbatim>\<open>convert_metadata\<close> left it. Failures of the archive file itself are not
  modelled.
\<close>

definition DOCX_write ::
  "env \<Rightarrow> datetime \<Rightarrow> DOCX \<Rightarrow> Metadata \<Rightarrow> error + ((string \<times> blob) list \<times> string list \<times> DOCX)" where
  "DOCX_write e now self oeb =
     (case contenttypes e self of
        Inl err \<Rightarrow> Inl err
      | Inr ct \<Rightarrow>
          (let zf1 = [(''[Content_Types].xml'', ct), (''_rels/.rels'', containerrels)];
               cm = convert_metadata e now self oeb;
               self1 = snd cm
           in (case fst cm of
                 Inl err \<Rightarrow> Inl err
               | Inr core \<Rightarrow>
                   (let zf2 = zf1 @ [(''docProps/core.xml'', core)]
                    in (case appproperties e self1 of
                          Inl err \<Rightarrow> Inl err
                        | Inr app \<Rightarrow>
                            (let zf3 = zf2 @ [(''docProps/app.xml'', app),
                                              (''word/webSettings.xml'', websettings e)]
                             in (case document self1 of
                                   None \<Rightarrow> Inl AttributeError
                                 | Some doc \<Rightarrow>
                                     (case styles self1 of
                                        None \<Rightarrow> Inl AttributeError
                                      | Some sty \<Rightarrow>
                                          (case serialize e (document_relationships self1) of
                                             Inl err \<Rightarrow> Inl err
                                           | Inr rels \<Rightarrow>
                                               (let zf4 = zf3 @
                                                      [(''word/document.xml'', xml2str doc),
                                                       (''word/styles.xml'', xml2str sty),
                                                       (''word/fontTable.xml'', xml2str (font_table self1)),
                                                       (''word/_rels/document.xml.rels'', rels),
                                                       (''word/_rels/fontTable.xml.rels'',
                                                          xml2str (embedded_fonts self1))]
                                                in (case images self1 of
                                                      None \<Rightarrow> Inl AttributeError
                                                    | Some imgs \<Rightarrow>
                                                        (case write_images (iter_order (iter_images e) imgs) (zf4, []) of
                                                           Inl err \<Rightarrow> Inl err
                                                         | Inr (zf5, calls) \<Rightarrow>
                                                             Inr (zf5 @ write_fonts e (fonts self1), calls, self1)))))))))))))"

subsection \<open>Notions the properties are stated with\<close>

text \<open>A sequence of \<^verbatim>\<open>add_relationship\<close> calls on one registry, keeping the registry.\<close>

definition add_relationships :: "DocumentRelationships \<Rightarrow> rkey list \<Rightarrow> DocumentRelationships" where
  "add_relationships self ks =
     foldl (\<lambda>r k. case k of (target, rtype, target_mode) \<Rightarrow>
                     snd (add_relationship r target rtype target_mode)) self ks"

text \<open>The registry after the constructor and a sequence of calls.\<close>

definition registry_after :: "env \<Rightarrow> rkey list \<Rightarrow> DocumentRelationships" where
  "registry_after e ks = add_relationships (DocumentRelationships_init e) ks"

text \<open>The keys of the three relationships the constructor registers.\<close>

definition builtin_keys :: "env \<Rightarrow> rkey list" where
  "builtin_keys e =
     [(''styles.xml'', STYLES e, None), (''webSettings.xml'', WEB_SETTINGS e, None),
      (''fontTable.xml'', FONTS e, None)]"

text \<open>The root of a serialised document, and the key a \<^verbatim>\<open>Relationship\<close> element stands for.\<close>

definition root_children :: "blob \<Rightarrow> xml list" where
  "root_children b = (case b of XmlDocument root \<Rightarrow> children root | Bytes _ \<Rightarrow> [])"

definition rel_key :: "xml \<Rightarrow> string option \<times> string option \<times> string option" where
  "rel_key el = (map_of (attrib el) ''Target'', map_of (attrib el) ''Type'',
                 map_of (attrib el) ''TargetMode'')"

text \<open>
  A key whose strings \<^verbatim>\<open>lxml\<close> accepts as attribute values, and what \<^verbatim>\<open>serialize\<close>
  gives, read as the keys of its \<^verbatim>\<open>Relationship\<close> elements, or the error.
\<close>

definition key_valid :: "rkey \<Rightarrow> bool" where
  "key_valid k = (case k of (target, rtype, target_mode) \<Rightarrow>
     xml_valid rtype \<and> xml_valid target \<and> opt_valid target_mode)"

definition serialized_keys ::
  "env \<Rightarrow> DocumentRelationships \<Rightarrow> error + (string option \<times> string option \<times> string option) list" where
  "serialized_keys e self =
     (case serialize e self of
        Inl err \<Rightarrow> Inl err
      | Inr doc \<Rightarrow> Inr (map rel_key (root_children doc)))"

text \<open>The keys of a registry in the order of their insertion, as \<open>rel_key\<close> reads them.\<close>

definition inserted_keys ::
  "DocumentRelationships \<Rightarrow> (string option \<times> string option \<times> string option) list" where
  "inserted_keys self =
     map (\<lambda>k. case k of (target, rtype, target_mode) \<Rightarrow> (Some target, Some rtype, target_mode))
       (map fst (rmap self))"

text \<open>
  The names and namespace prefixes \<^verbatim>\<open>update_doc_props\<close> calls \<^verbatim>\<open>setm\<close> with (their
  qualified names are tags \<^verbatim>\<open>lxml\<close> accepts), the children of a document with a given
  tag, and a sequence of \<^verbatim>\<open>update_doc_props\<close> calls on one document, each on the document
  as the call before left it.
\<close>

definition property_names :: "(string \<times> string) list" where
  "property_names =
     [(''title'', ''dc''), (''creator'', ''dc''), (''keywords'', ''cp''),
      (''description'', ''dc''), (''language'', ''dc'')]"

definition elements_named :: "string \<Rightarrow> xml \<Rightarrow> xml list" where
  "elements_named t root = filter (\<lambda>c. tag c = t) (children root)"

definition updates :: "env \<Rightarrow> xml \<Rightarrow> Metadata list \<Rightarrow> xml" where
  "updates e root ms = foldl (\<lambda>r m. snd (update_doc_props e r m)) root ms"

text \<open>
  The texts \<^verbatim>\<open>update_doc_props\<close> sets for a record are all accepted by \<^verbatim>\<open>lxml\<close>. (An
  empty list of tags joins to the empty string and a comment that is not set is \<^verbatim>\<open>None\<close>
  or empty, which are accepted.)
\<close>

definition props_valid :: "env \<Rightarrow> Metadata \<Rightarrow> bool" where
  "props_valid e m =
     (xml_valid (title m) \<and> xml_valid (authors_to_string e (authors m)) \<and>
      xml_valid (join '', '' (tags m)) \<and> opt_valid (comments m) \<and>
      (case languages m of
         [] \<Rightarrow> True
       | l0 # _ \<Rightarrow>
           opt_valid (py_or (lang_as_iso639_1 e (canonicalize_lang e l0))
                        (canonicalize_lang e l0))))"

text \<open>
  The \<^verbatim>\<open>Default\<close> elements among the children of a manifest, each as its \<^verbatim>\<open>Extension\<close>
  and \<^verbatim>\<open>ContentType\<close> attributes.
\<close>

definition default_entries :: "env \<Rightarrow> xml list \<Rightarrow> (string option \<times> string option) list" where
  "default_entries e cs =
     map (\<lambda>c. (map_of (attrib c) ''Extension'', map_of (attrib c) ''ContentType''))
       (filter (\<lambda>c. tag c = qname (namespaces e ''ct'') ''Default'') cs)"

text \<open>What \<^verbatim>\<open>contenttypes\<close> gives: the \<^verbatim>\<open>Default\<close> entries of the manifest, or the error.\<close>

definition manifest_defaults :: "env \<Rightarrow> DOCX \<Rightarrow> error + (string option \<times> string option) list" where
  "manifest_defaults e self =
     (case contenttypes e self of
        Inl err \<Rightarrow> Inl err
      | Inr doc \<Rightarrow> Inr (default_entries e (root_children doc)))"

text \<open>
  The invariant of a registry: the keys are distinct and the identifier at position \<open>i\<close>
  (from 0) is \<^verbatim>\<open>rId\<close> followed by \<open>i + 1\<close>.
\<close>

definition reg_inv :: "DocumentRelationships \<Rightarrow> bool" where
  "reg_inv r =
     (distinct (map fst (rmap r)) \<and>
      map snd (rmap r) = map (\<lambda>i. ''rId'' @ fmt_d (Suc i)) [0..<length (rmap r)])"

text \<open>
  An environment for evaluating the definitions on concrete inputs: the relationship
  types and namespaces of the Office Open XML packaging conventions, a lookup that knows
  the image and XML types, and hash-table orders that reverse the items.
\<close>

definition example_guess_type :: "string \<Rightarrow> string option" where
  "example_guess_type fname =
     map_of [(''a.png'', ''image/png''), (''a.gif'', ''image/gif''), (''a.jpeg'', ''image/jpeg''),
             (''a.jpg'', ''image/jpeg''), (''a.svg'', ''image/svg+xml''),
             (''a.xml'', ''application/xml''), (''a.bmp'', ''image/bmp'')] fname"

definition example_env :: env where
  "example_env =
     \<lparr>namespaces = (\<lambda>ns. ''urn:'' @ ns),
      STYLES = ''http://schemas.openxmlformats.org/officeDocument/2006/relationships/styles'',
      WEB_SETTINGS = ''http://schemas.openxmlformats.org/officeDocument/2006/relationships/webSettings'',
      IMAGES = ''http://schemas.openxmlformats.org/officeDocument/2006/relationships/image'',
      FONTS = ''http://schemas.openxmlformats.org/officeDocument/2006/relationships/fontTable'',
      appname = ''calibre'',
      numeric_version = (1, 15, 0),
      guess_type = example_guess_type,
      authors_to_string = join '' & '',
      canonicalize_lang = Some,
      lang_as_iso639_1 = (\<lambda>l. None),
      iter_strs = rev,
      iter_pairs = rev,
      iter_rels = rev,
      iter_images = rev\<rparr>"

text \<open>
  An assembler as the rest of the conversion leaves it before \<^verbatim>\<open>write\<close>: constructed,
  then given a body, a style sheet and the images.
\<close>

definition example_assembler :: "(string \<times> (error + string)) list \<Rightarrow> DOCX" where
  "example_assembler imgs =
     (DOCX_init example_env)
       \<lparr>images := Some imgs,
        document := Some (Element (qname ''urn:w'' ''document'') [] None []),
        styles := Some (Element (qname ''urn:w'' ''styles'') [] None [])\<rparr>"

text \<open>A metadata record with a given publisher.\<close>

definition example_metadata :: "string option \<Rightarrow> Metadata" where
  "example_metadata pub =
     \<lparr>title = ''Sample'', authors = [''A. Author''], tags = [], comments = None,
      languages = [''en''], publisher = pub\<rparr>"

text \<open>An assembler with two images and one font, and an instant.\<close>

definition example_package :: DOCX where
  "example_package =
     (example_assembler [(''media/a.png'', Inr ''A''), (''media/b.png'', Inr ''B'')])
       \<lparr>fonts := [(''word/fonts/f1.odttf'', ''F'')]\<rparr>"

definition example_now :: datetime where
  "example_now =
     \<lparr>year = 2013, month = 6, day = 1, hour = 12, minute = 34, second = 56,
      microsecond = 789, aware = True\<rparr>"

text \<open>
  An empty core-properties document, and the record above with another title; the second
  title below has a vertical tab, a control character \<^verbatim>\<open>lxml\<close> rejects.
\<close>

definition example_root :: xml where
  "example_root = Element (qname ''urn:cp'' ''coreProperties'') [] None []"

definition example_titled :: "string \<Rightarrow> Metadata" where
  "example_titled t = (example_metadata None)\<lparr>title := t\<rparr>"

definition bad_title :: string where
  "bad_title = ''Sec'' @ [CHR 0x0B] @ ''ond''"

text \<open>A lookup that knows no type, and the environment with it.\<close>

definition no_guess_env :: env where
  "no_guess_env = example_env\<lparr>guess_type := (\<lambda>fname. None)\<rparr>"

section \<open>Properties\<close>

subsection \<open>Decimal formatting, dict iteration and the strings lxml accepts\<close>



lemma fmt_d_small: "n < 10 \<Longrightarrow> fmt_d n = [digit n]"
  by (subst fmt_d.simps) simp

lemma fmt_d_large: "\<not> n < 10 \<Longrightarrow> fmt_d n = fmt_d (n div 10) @ [digit (n mod 10)]"
  by (subst fmt_d.simps) simp


lemma dict_setitem_fresh: "map_of d k = None \<Longrightarrow> dict_setitem d k v = d @ [(k, v)]"
  by (induction d) (auto split: if_splits)

lemma add_relationship_new:
  "map_of (rmap r) (t, ty, m) = None \<Longrightarrow>
   add_relationship r t ty m =
     (''rId'' @ fmt_d (Suc (length (rmap r))),
      r\<lparr>rmap := rmap r @ [((t, ty, m), ''rId'' @ fmt_d (Suc (length (rmap r))))]\<rparr>)"
  by (simp add: add_relationship_def get_relationship_id_def dict_get_def dict_setitem_fresh Let_def)

lemma add_relationship_old:
  "map_of (rmap r) (t, ty, m) = Some i \<Longrightarrow> add_relationship r t ty m = (i, r)"
  by (simp add: add_relationship_def get_relationship_id_def dict_get_def)

lemma add_relationship_inv: "reg_inv r \<Longrightarrow> reg_inv (snd (add_relationship r t ty m))"
proof (cases "map_of (rmap r) (t, ty, m)")
  case None
  assume inv: "reg_inv r"
  from None have "(t, ty, m) \<notin> fst ` set (rmap r)" by (simp add: map_of_eq_None_iff)
  with inv show ?thesis
    by (simp add: add_relationship_new [OF None] reg_inv_def)
next
  case (Some i)
  assume "reg_inv r"
  then show ?thesis by (simp add: add_relationship_old [OF Some])
qed

lemma add_relationship_lookup:
  "map_of (rmap (snd (add_relationship r t ty m))) (t, ty, m) = Some (fst (add_relationship r t ty m))"
proof (cases "map_of (rmap r) (t, ty, m)")
  case None
  then show ?thesis by (simp add: add_relationship_new [OF None] map_add_def)
next
  case (Some i)
  then show ?thesis by (simp add: add_relationship_old [OF Some])
qed

lemma add_relationship_keeps:
  "map_of (rmap r) k = Some i \<Longrightarrow> map_of (rmap (snd (add_relationship r t ty m))) k = Some i"
proof (cases "map_of (rmap r) (t, ty, m)")
  case None
  assume "map_of (rmap r) k = Some i"
  then show ?thesis by (simp add: add_relationship_new [OF None] map_add_Some_iff)
next
  case (Some j)
  assume "map_of (rmap r) k = Some i"
  then show ?thesis by (simp add: add_relationship_old [OF Some])
qed

lemma add_relationships_keeps:
  "map_of (rmap r) k = Some i \<Longrightarrow> map_of (rmap (add_relationships r ks)) k = Some i"
proof (induction ks arbitrary: r)
  case Nil
  then show ?case by (simp add: add_relationships_def)
next
  case (Cons a ks)
  obtain t ty m where a: "a = (t, ty, m)" by (cases a)
  from Cons.prems have "map_of (rmap (snd (add_relationship r t ty m))) k = Some i"
    by (rule add_relationship_keeps)
  from Cons.IH [OF this] show ?case by (simp add: add_relationships_def a)
qed

lemma add_relationships_inv: "reg_inv r \<Longrightarrow> reg_inv (add_relationships r ks)"
proof (induction ks arbitrary: r)
  case Nil
  then show ?case by (simp add: add_relationships_def)
next
  case (Cons a ks)
  obtain t ty m where a: "a = (t, ty, m)" by (cases a)
  from Cons.prems have "reg_inv (snd (add_relationship r t ty m))"
    by (rule add_relationship_inv)
  from Cons.IH [OF this] show ?case by (simp add: add_relationships_def a)
qed

lemma add_relationship_prefix: "\<exists>ys. rmap (snd (add_relationship r t ty m)) = rmap r @ ys"
proof (cases "map_of (rmap r) (t, ty, m)")
  case None
  then show ?thesis by (simp add: add_relationship_new [OF None])
next
  case (Some i)
  then show ?thesis by (simp add: add_relationship_old [OF Some])
qed

lemma add_relationships_prefix: "\<exists>ys. rmap (add_relationships r ks) = rmap r @ ys"
proof (induction ks arbitrary: r)
  case Nil
  then show ?case by (simp add: add_relationships_def)
next
  case (Cons a ks)
  obtain t ty m where a: "a = (t, ty, m)" by (cases a)
  obtain ys where ys: "rmap (snd (add_relationship r t ty m)) = rmap r @ ys"
    using add_relationship_prefix by blast
  obtain zs where "rmap (add_relationships (snd (add_relationship r t ty m)) ks) =
      rmap (snd (add_relationship r t ty m)) @ zs"
    using Cons.IH by blast
  with ys show ?case by (simp add: add_relationships_def a)
qed

lemma iter_order_mset: "mset (iter_order p xs) = mset xs"
  by (simp add: iter_order_def)

lemma iter_order_set: "set (iter_order p xs) = set xs"
  by (metis iter_order_mset set_mset_mset)


lemma iter_order_distinct: "distinct (iter_order p xs) = distinct xs"
  by (metis iter_order_mset mset_eq_imp_distinct_iff)

lemma reg_inv_empty: "reg_inv \<lparr>rmap = []\<rparr>"
  by (simp add: reg_inv_def)

lemma init_as_adds:
  "foldl (\<lambda>self (typ, target). snd (add_relationship self target typ None)) r items =
   add_relationships r (map (\<lambda>(typ, target). (target, typ, None)) items)"
  by (induction items arbitrary: r) (auto simp: add_relationships_def)

lemma init_inv: "reg_inv (DocumentRelationships_init e)"
  unfolding DocumentRelationships_init_def init_as_adds
  by (rule add_relationships_inv) (rule reg_inv_empty)

lemma registry_after_inv: "reg_inv (registry_after e ks)"
  unfolding registry_after_def by (rule add_relationships_inv) (rule init_inv)

lemma add_relationships_fresh_keys:
  "distinct ks \<Longrightarrow> set ks \<inter> fst ` set (rmap r) = {} \<Longrightarrow>
   map fst (rmap (add_relationships r ks)) = map fst (rmap r) @ ks"
proof (induction ks arbitrary: r)
  case Nil
  then show ?case by (simp add: add_relationships_def)
next
  case (Cons a ks)
  obtain t ty m where a: "a = (t, ty, m)" by (cases a)
  from Cons.prems have none: "map_of (rmap r) (t, ty, m) = None"
    by (auto simp: a map_of_eq_None_iff)
  let ?r = "snd (add_relationship r t ty m)"
  have r: "rmap ?r = rmap r @ [((t, ty, m), ''rId'' @ fmt_d (Suc (length (rmap r))))]"
    by (simp add: add_relationship_new [OF none])
  from Cons.prems have "distinct ks" and "set ks \<inter> fst ` set (rmap ?r) = {}"
    by (auto simp: r a)
  from Cons.IH [OF this] show ?case by (simp add: add_relationships_def a r)
qed

lemma reg_inv_lookup:
  assumes "reg_inv r" and "map_of (rmap r) k = Some i"
  shows "\<exists>j < length (rmap r). fst (rmap r ! j) = k \<and> i = ''rId'' @ fmt_d (Suc j)"
proof -
  from assms(2) have "(k, i) \<in> set (rmap r)" by (rule map_of_SomeD)
  then obtain j where j: "j < length (rmap r)" "rmap r ! j = (k, i)"
    by (auto simp: in_set_conv_nth)
  from assms(1) have "map snd (rmap r) ! j = map (\<lambda>i. ''rId'' @ fmt_d (Suc i)) [0..<length (rmap r)] ! j"
    by (simp add: reg_inv_def)
  with j have "i = ''rId'' @ fmt_d (Suc j)" by simp
  with j show ?thesis by auto
qed


lemma count_key_distinct:
  "distinct (map fst xs) \<Longrightarrow>
   length (filter (\<lambda>item. fst item = k) xs) = (if k \<in> fst ` set xs then 1 else 0)"
  by (induction xs) (auto simp: image_iff)

lemma filter_length_perm:
  "mset xs = mset ys \<Longrightarrow> length (filter P xs) = length (filter P ys)"
  by (metis mset_filter size_mset)

lemma qname_last: "a \<noteq> [] \<Longrightarrow> b \<noteq> [] \<Longrightarrow> qname N a = qname N' b \<Longrightarrow> last a = last b"
proof -
  assume a: "a \<noteq> []" "b \<noteq> []" and eq: "qname N a = qname N' b"
  from a(1) have "last (qname N a) = last a" by (simp add: qname_def)
  moreover from a(2) have "last (qname N' b) = last b" by (simp add: qname_def)
  ultimately show ?thesis using eq by simp
qed

lemma qname_same_ns: "qname N a = qname N b \<longleftrightarrow> a = b"
  by (simp add: qname_def)

lemma qname_last_neq: "a \<noteq> [] \<Longrightarrow> b \<noteq> [] \<Longrightarrow> last a \<noteq> last b \<Longrightarrow> qname N a \<noteq> qname N' b"
  using qname_last by blast

lemma xml_valid_append: "xml_valid (a @ b) = (xml_valid a \<and> xml_valid b)"
  by (simp add: xml_valid_def)

lemma xml_valid_Cons: "xml_valid (c # s) = (xml_char c \<and> xml_valid s)"
  by (simp add: xml_valid_def)

lemma xml_valid_Nil: "xml_valid []"
  by (simp add: xml_valid_def)

lemma digit_xml_char: "d < 10 \<Longrightarrow> xml_char (digit d)"
proof -
  assume "d < 10"
  then have "digit d \<in> set ''0123456789''"
    unfolding digit_def by (intro nth_mem) simp
  then show ?thesis by (auto simp: xml_char_def)
qed

lemma fmt_d_valid: "xml_valid (fmt_d n)"
proof (induction n rule: fmt_d.induct)
  case (1 n)
  show ?case
  proof (cases "n < 10")
    case True
    then show ?thesis by (simp add: fmt_d_small xml_valid_Cons xml_valid_Nil digit_xml_char)
  next
    case False
    have "n mod 10 < 10" by simp
    from digit_xml_char [OF this] "1.IH" [OF False] False show ?thesis
      by (simp add: fmt_d_large xml_valid_append xml_valid_Cons xml_valid_Nil)
  qed
qed

lemma fmt_0d_valid: "xml_valid (fmt_0d w n)"
  by (simp add: fmt_0d_def xml_valid_append fmt_d_valid) (simp add: xml_valid_def xml_char_def list_all_iff)

lemma rid_valid: "xml_valid (''rId'' @ fmt_d n)"
  by (simp add: xml_valid_append fmt_d_valid xml_valid_Cons xml_valid_Nil xml_char_def)

lemma lit_valid:
  "xml_valid ''0''" "xml_valid ''1''" "xml_valid ''false''" "xml_valid ''true''"
  "xml_valid ''calibre''" "xml_valid ''dcterms:W3CDTF''" "xml_valid ''.''" "xml_valid ''Z''"
  by (simp_all add: xml_valid_Cons xml_valid_Nil xml_char_def)

subsection \<open>The relationship registry\<close>

lemma builtin_display:
  "distinct [STYLES e, WEB_SETTINGS e, FONTS e] \<Longrightarrow>
   dict_display [(STYLES e, ''styles.xml''), (WEB_SETTINGS e, ''webSettings.xml''),
                 (FONTS e, ''fontTable.xml'')] =
   [(STYLES e, ''styles.xml''), (WEB_SETTINGS e, ''webSettings.xml''), (FONTS e, ''fontTable.xml'')]"
  by (auto simp: dict_display_def)

lemma builtin_keys_distinct: "distinct (builtin_keys e)"
  by (simp add: builtin_keys_def)

lemma init_keys:
  assumes "distinct [STYLES e, WEB_SETTINGS e, FONTS e]"
  shows "mset (map fst (rmap (DocumentRelationships_init e))) = mset (builtin_keys e)"
proof -
  let ?items = "[(STYLES e, ''styles.xml''), (WEB_SETTINGS e, ''webSettings.xml''),
                 (FONTS e, ''fontTable.xml'')]"
  let ?f = "\<lambda>(typ, target). (target, typ, None :: string option)"
  let ?xs = "iter_order (iter_pairs e) ?items"
  have ms: "mset (map ?f ?xs) = mset (builtin_keys e)"
    by (simp add: iter_order_mset builtin_keys_def)
  then have d: "distinct (map ?f ?xs)"
    using builtin_keys_distinct by (metis mset_eq_imp_distinct_iff)
  have "DocumentRelationships_init e = add_relationships \<lparr>rmap = []\<rparr> (map ?f ?xs)"
    by (simp add: DocumentRelationships_init_def init_as_adds builtin_display [OF assms])
  moreover have "map fst (rmap (add_relationships \<lparr>rmap = []\<rparr> (map ?f ?xs))) =
      map fst (rmap \<lparr>rmap = []\<rparr>) @ map ?f ?xs"
    using d by (intro add_relationships_fresh_keys) simp_all
  ultimately show ?thesis using ms by simp
qed

lemma first_ids: "map (\<lambda>i. ''rId'' @ fmt_d (Suc i)) [0..<3] = [''rId1'', ''rId2'', ''rId3'']"
  by (simp add: numeral_3_eq_3 upt_rec fmt_d_small digit_def)

lemma init_ids:
  assumes "distinct [STYLES e, WEB_SETTINGS e, FONTS e]"
  shows "map snd (rmap (DocumentRelationships_init e)) = [''rId1'', ''rId2'', ''rId3'']"
proof -
  have "size (mset (map fst (rmap (DocumentRelationships_init e)))) = size (mset (builtin_keys e))"
    by (simp only: init_keys [OF assms])
  then have len: "length (rmap (DocumentRelationships_init e)) = 3"
    by (simp add: builtin_keys_def)
  from init_inv [of e] show ?thesis
    by (simp only: reg_inv_def len first_ids)
qed

lemma caller_id:
  assumes d: "distinct [STYLES e, WEB_SETTINGS e, FONTS e]"
    and k: "(t, ty, m) \<notin> set (builtin_keys e)"
  shows "\<exists>n\<ge>4. fst (add_relationship (registry_after e ks) t ty m) = ''rId'' @ fmt_d n"
proof -
  let ?init = "DocumentRelationships_init e"
  let ?r = "snd (add_relationship (registry_after e ks) t ty m)"
  let ?i = "fst (add_relationship (registry_after e ks) t ty m)"
  have inv: "reg_inv ?r" by (rule add_relationship_inv) (rule registry_after_inv)
  have "map_of (rmap ?r) (t, ty, m) = Some ?i" by (rule add_relationship_lookup)
  from reg_inv_lookup [OF inv this] obtain j where
    j: "j < length (rmap ?r)" "fst (rmap ?r ! j) = (t, ty, m)" "?i = ''rId'' @ fmt_d (Suc j)"
    by blast
  obtain ys where "rmap (registry_after e ks) = rmap ?init @ ys"
    unfolding registry_after_def using add_relationships_prefix by blast
  moreover obtain zs where "rmap ?r = rmap (registry_after e ks) @ zs"
    using add_relationship_prefix by blast
  ultimately have pre: "rmap ?r = rmap ?init @ (ys @ zs)" by simp
  have len: "length (rmap ?init) = 3"
    using init_ids [OF d] by (metis length_map length_Cons list.size(3) numeral_3_eq_3)
  have "\<not> j < 3"
  proof
    assume "j < 3"
    with len pre have "rmap ?r ! j = rmap ?init ! j" by (simp add: nth_append)
    with j(2) \<open>j < 3\<close> len have "(t, ty, m) \<in> set (map fst (rmap ?init))"
      by (metis length_map nth_map nth_mem)
    then have "(t, ty, m) \<in># mset (map fst (rmap ?init))" by simp
    then have "(t, ty, m) \<in> set (builtin_keys e)"
      by (simp only: init_keys [OF d] set_mset_mset)
    with k show False by contradiction
  qed
  then have "4 \<le> Suc j" by simp
  with j(3) show ?thesis by blast
qed

lemma example_env_fields:
  "namespaces example_env = (\<lambda>ns. ''urn:'' @ ns)"
  "STYLES example_env = ''http://schemas.openxmlformats.org/officeDocument/2006/relationships/styles''"
  "WEB_SETTINGS example_env = ''http://schemas.openxmlformats.org/officeDocument/2006/relationships/webSettings''"
  "IMAGES example_env = ''http://schemas.openxmlformats.org/officeDocument/2006/relationships/image''"
  "FONTS example_env = ''http://schemas.openxmlformats.org/officeDocument/2006/relationships/fontTable''"
  "appname example_env = ''calibre''"
  "numeric_version example_env = (1, 15, 0)"
  "guess_type example_env = example_guess_type"
  "authors_to_string example_env = join '' & ''"
  "canonicalize_lang example_env = Some"
  "lang_as_iso639_1 example_env = (\<lambda>l. None)"
  "iter_strs example_env = rev"
  "iter_pairs example_env = rev"
  "iter_rels example_env = rev"
  "iter_images example_env = rev"
  by (simp_all add: example_env_def)

lemma iter_order_rev: "iter_order rev xs = rev xs"
  by (simp add: iter_order_def)

lemma example_init: "rmap (DocumentRelationships_init example_env) =
  [((''fontTable.xml'', FONTS example_env, None), ''rId1''),
   ((''webSettings.xml'', WEB_SETTINGS example_env, None), ''rId2''),
   ((''styles.xml'', STYLES example_env, None), ''rId3'')]"
  by (simp add: DocumentRelationships_init_def example_env_fields dict_display_def iter_order_rev
      add_relationship_def get_relationship_id_def dict_get_def fmt_d_small digit_def Let_def)

text \<open>
  Claim C7. The relationship types \<^verbatim>\<open>STYLES\<close>, \<^verbatim>\<open>WEB_SETTINGS\<close> and \<^verbatim>\<open>FONTS\<close> are the keys
  of the dict display the constructor iterates over, so they have to be pairwise distinct
  for the display to hold three items. Then a freshly constructed registry holds exactly
  the three built-in keys, with the identifiers \<^verbatim>\<open>rId1\<close>, \<^verbatim>\<open>rId2\<close>, \<^verbatim>\<open>rId3\<close> in the
  order of registration, and every key other than the three built-in ones that a caller
  registers, after any sequence of earlier calls, receives \<^verbatim>\<open>rId\<close>\<open>n\<close> with \<open>n \<ge> 4\<close>.
\<close>

theorem builtin_relationships_first:
  assumes "distinct [STYLES e, WEB_SETTINGS e, FONTS e]"
    and "(t, ty, m) \<notin> set (builtin_keys e)"
  shows "mset (map fst (rmap (DocumentRelationships_init e))) = mset (builtin_keys e) \<and>
         map snd (rmap (DocumentRelationships_init e)) = [''rId1'', ''rId2'', ''rId3''] \<and>
         (\<exists>n\<ge>4. fst (add_relationship (registry_after e ks) t ty m) = ''rId'' @ fmt_d n)"
  using init_keys [OF assms(1)] init_ids [OF assms(1)] caller_id [OF assms] by blast

theorem builtin_relationships_first_witness:
  "distinct [STYLES example_env, WEB_SETTINGS example_env, FONTS example_env] \<and>
   (''media/image1.png'', IMAGES example_env, None) \<notin> set (builtin_keys example_env) \<and>
   mset (map fst (rmap (DocumentRelationships_init example_env))) = mset (builtin_keys example_env) \<and>
   map snd (rmap (DocumentRelationships_init example_env)) = [''rId1'', ''rId2'', ''rId3''] \<and>
   (\<exists>n\<ge>4. fst (add_relationship (registry_after example_env [(''styles.xml'', STYLES example_env, None)])
                 ''media/image1.png'' (IMAGES example_env) None) = ''rId'' @ fmt_d n)"
proof -
  have d: "distinct [STYLES example_env, WEB_SETTINGS example_env, FONTS example_env]"
    by (simp add: example_env_def)
  have k: "(''media/image1.png'', IMAGES example_env, None) \<notin> set (builtin_keys example_env)"
    by (simp add: builtin_keys_def)
  from builtin_relationships_first [OF d k] d k show ?thesis by blast
qed

lemma append_relationships_result:
  "append_relationships e root items =
     (if list_all item_valid items
      then Inr (Element (tag root) (attrib root) (etext root)
                  (children root @ map (relationship_element e) items))
      else Inl ValueError)"
  by (induction items arbitrary: root) (simp_all add: Relationship_def append_child_def)

lemma iter_order_list_all: "list_all P (iter_order p xs) = list_all P xs"
  by (simp add: list_all_iff iter_order_set)

lemma serialize_result:
  "serialize e r =
     (if list_all item_valid (rmap r)
      then Inr (XmlDocument (Element (qname (namespaces e ''pr'') ''Relationships'') [] None
                  (map (relationship_element e) (iter_order (iter_rels e) (rmap r)))))
      else Inl ValueError)"
  by (simp add: serialize_def append_relationships_result iter_order_list_all Relationships_def
      xml2str_def)

lemma reg_inv_items_valid:
  assumes "reg_inv r"
  shows "list_all item_valid (rmap r) = list_all key_valid (map fst (rmap r))"
proof -
  have "item_valid x = key_valid (fst x)" if "x \<in> set (rmap r)" for x
  proof -
    from that obtain j where j: "j < length (rmap r)" "rmap r ! j = x"
      by (auto simp: in_set_conv_nth)
    from assms have "map snd (rmap r) ! j = map (\<lambda>i. ''rId'' @ fmt_d (Suc i)) [0..<length (rmap r)] ! j"
      by (simp add: reg_inv_def)
    with j have "snd x = ''rId'' @ fmt_d (Suc j)" by simp
    then have "xml_valid (snd x)" by (simp only: rid_valid)
    then show ?thesis
      by (cases x) (auto simp: item_valid_def key_valid_def)
  qed
  then show ?thesis by (simp add: list_all_iff)
qed






lemma serialize_raises:
  "reg_inv r \<Longrightarrow>
   (serialize e r = Inl ValueError) = (\<not> list_all key_valid (map fst (rmap r)))"
  by (simp add: serialize_result reg_inv_items_valid)

lemma add_relationship_idem:
  "fst (add_relationship (add_relationships (snd (add_relationship r t ty m)) ks) t ty m) =
   fst (add_relationship r t ty m)"
proof -
  have "map_of (rmap (add_relationships (snd (add_relationship r t ty m)) ks)) (t, ty, m) =
        Some (fst (add_relationship r t ty m))"
    by (rule add_relationships_keeps) (rule add_relationship_lookup)
  then show ?thesis by (simp add: add_relationship_old)
qed









text \<open>
  Claim C4, as the code has it. If every key of the registry is made of strings \<^verbatim>\<open>lxml\<close>
  accepts, \<^verbatim>\<open>serialize\<close> returns a document whose \<^verbatim>\<open>Relationship\<close> elements are in
  the order in which the dict \<^verbatim>\<open>rmap\<close> yields its items. That order is a rearrangement
  of the insertion order: every registered item is emitted exactly once. \<open>serialize\<close> is
  a function of the registry and of the iteration order of the dict, so the same calls
  give the same document wherever the dict iterates in the same order: on every registry
  reached from the constructor it returns the document of the items in the dict's order
  if every key is accepted, and raises \<open>ValueError\<close> if not.
\<close>

theorem serialize_order:
  assumes "list_all key_valid (map fst (rmap (registry_after e ks)))"
  shows "(\<exists>doc. serialize e (registry_after e ks) = Inr doc \<and>
     root_children doc =
       map (relationship_element e) (iter_order (iter_rels e) (rmap (registry_after e ks))) \<and>
     mset (root_children doc) = mset (map (relationship_element e) (rmap (registry_after e ks)))) \<and>
   serialize e (registry_after e any_ks) =
     (if list_all key_valid (map fst (rmap (registry_after e any_ks)))
      then Inr (XmlDocument (Element (qname (namespaces e ''pr'') ''Relationships'') [] None
             (map (relationship_element e)
                (iter_order (iter_rels e) (rmap (registry_after e any_ks))))))
      else Inl ValueError)"
proof -
  let ?items = "iter_order (iter_rels e) (rmap (registry_after e ks))"
  let ?doc = "XmlDocument (Element (qname (namespaces e ''pr'') ''Relationships'') [] None
                  (map (relationship_element e) ?items))"
  have inv: "reg_inv (registry_after e ks)" by (rule registry_after_inv)
  with assms have s: "serialize e (registry_after e ks) = Inr ?doc"
    by (simp add: serialize_result reg_inv_items_valid)
  have c: "root_children ?doc = map (relationship_element e) ?items"
    by (simp add: root_children_def)
  have m: "mset (root_children ?doc) = mset (map (relationship_element e) (rmap (registry_after e ks)))"
    by (simp add: c iter_order_mset)
  have any_inv: "reg_inv (registry_after e any_ks)" by (rule registry_after_inv)
  have r: "serialize e (registry_after e any_ks) =
     (if list_all key_valid (map fst (rmap (registry_after e any_ks)))
      then Inr (XmlDocument (Element (qname (namespaces e ''pr'') ''Relationships'') [] None
             (map (relationship_element e)
                (iter_order (iter_rels e) (rmap (registry_after e any_ks))))))
      else Inl ValueError)"
  proof (cases "list_all key_valid (map fst (rmap (registry_after e any_ks)))")
    case True
    with any_inv show ?thesis by (simp add: serialize_result reg_inv_items_valid)
  next
    case False
    with serialize_raises [OF any_inv, of e] show ?thesis by simp
  qed
  from s c m have "\<exists>doc. serialize e (registry_after e ks) = Inr doc \<and>
     root_children doc =
       map (relationship_element e) (iter_order (iter_rels e) (rmap (registry_after e ks))) \<and>
     mset (root_children doc) = mset (map (relationship_element e) (rmap (registry_after e ks)))"
    by (intro exI [of _ ?doc] conjI) assumption+
  then show ?thesis using r by (rule conjI)
qed

lemma example_fresh_valid:
  "list_all key_valid (map fst (rmap (registry_after example_env [])))"
  by code_simp

theorem serialize_order_witness:
  "list_all key_valid (map fst (rmap (registry_after example_env []))) \<and>
   (\<exists>doc. serialize example_env (registry_after example_env []) = Inr doc \<and>
      root_children doc =
        map (relationship_element example_env)
          (iter_order (iter_rels example_env) (rmap (registry_after example_env []))) \<and>
      mset (root_children doc) =
        mset (map (relationship_element example_env) (rmap (registry_after example_env []))))"
proof -
  from serialize_order [OF example_fresh_valid, where any_ks = "[]"]
  have "\<exists>doc. serialize example_env (registry_after example_env []) = Inr doc \<and>
      root_children doc =
        map (relationship_element example_env)
          (iter_order (iter_rels example_env) (rmap (registry_after example_env []))) \<and>
      mset (root_children doc) =
        mset (map (relationship_element example_env) (rmap (registry_after example_env [])))"
    by (rule conjunct1)
  with example_fresh_valid show ?thesis by (rule conjI)
qed

text \<open>
  The emitted order is not the insertion order for every dict: where the dict yields its
  items in the reverse of the insertion order, the freshly constructed registry holds
  \<^verbatim>\<open>fontTable.xml\<close>, \<^verbatim>\<open>webSettings.xml\<close>, \<^verbatim>\<open>styles.xml\<close> in this order of insertion and
  the serialised document lists them in the opposite order.
\<close>

theorem serialize_insertion_order_counterexample:
  "inserted_keys (registry_after example_env []) =
     [(Some ''fontTable.xml'', Some (FONTS example_env), None),
      (Some ''webSettings.xml'', Some (WEB_SETTINGS example_env), None),
      (Some ''styles.xml'', Some (STYLES example_env), None)] \<and>
   serialized_keys example_env (registry_after example_env []) =
     Inr [(Some ''styles.xml'', Some (STYLES example_env), None),
          (Some ''webSettings.xml'', Some (WEB_SETTINGS example_env), None),
          (Some ''fontTable.xml'', Some (FONTS example_env), None)] \<and>
   serialized_keys example_env (registry_after example_env []) \<noteq>
     Inr (inserted_keys (registry_after example_env []))"
  by code_simp

subsection \<open>Core properties\<close>

lemma setm_ok:
  "opt_valid txt \<Longrightarrow>
   setm e root name txt ns =
     (None, Element (tag root) (attrib root) (etext root)
        (filter (\<lambda>child. tag child \<noteq> qname (namespaces e ns) name) (children root) @
         [Element (qname (namespaces e ns) name) [] txt []]))"
  by (simp add: setm_def Let_def)

lemma setm_raises:
  "\<not> opt_valid txt \<Longrightarrow>
   setm e root name txt ns =
     (Some ValueError, Element (tag root) (attrib root) (etext root)
        (filter (\<lambda>child. tag child \<noteq> qname (namespaces e ns) name) (children root)))"
  by (simp add: setm_def Let_def)

lemma setm_fst: "(fst (setm e root name txt ns) = None) = opt_valid txt"
  by (simp add: setm_def Let_def)

lemma setm_same:
  "elements_named (qname (namespaces e ns) name) (snd (setm e root name txt ns)) =
   (if opt_valid txt then [Element (qname (namespaces e ns) name) [] txt []] else [])"
  by (simp add: setm_def Let_def elements_named_def)

lemma setm_other:
  "T \<noteq> qname (namespaces e ns) name \<Longrightarrow>
   elements_named T (snd (setm e root name txt ns)) = elements_named T root"
  by (auto simp: setm_def Let_def elements_named_def intro: filter_cong)

lemma setm_at_most_one:
  "length (elements_named T root) \<le> 1 \<Longrightarrow>
   length (elements_named T (snd (setm e root name txt ns))) \<le> 1"
  by (cases "T = qname (namespaces e ns) name") (simp_all add: setm_same setm_other)

lemma setm_one:
  "opt_valid txt \<Longrightarrow> length (elements_named T root) = 1 \<Longrightarrow>
   length (elements_named T (snd (setm e root name txt ns))) = 1"
  by (cases "T = qname (namespaces e ns) name") (simp_all add: setm_same setm_other)

lemma and_then_ok: "fst r = None \<Longrightarrow> and_then r f = f (snd r)"
  by (cases r) (simp add: and_then_def)

lemma and_then_raises: "fst r \<noteq> None \<Longrightarrow> and_then r f = r"
  by (cases r) (auto simp: and_then_def)

lemma and_then_preserves:
  assumes "P (snd r)" and "\<And>root. P root \<Longrightarrow> P (snd (f root))"
  shows "P (snd (and_then r f))"
proof (cases "fst r")
  case None
  with assms show ?thesis by (simp add: and_then_ok)
next
  case (Some err)
  with assms show ?thesis by (simp add: and_then_raises)
qed

lemma title_tag_other:
  "qname (namespaces e ''dc'') ''title'' \<noteq> qname (namespaces e ''dc'') ''creator''"
  "qname (namespaces e ''dc'') ''title'' \<noteq> qname (namespaces e ''cp'') ''keywords''"
  "qname (namespaces e ''dc'') ''title'' \<noteq> qname (namespaces e ''dc'') ''description''"
  "qname (namespaces e ''dc'') ''title'' \<noteq> qname (namespaces e ''dc'') ''language''"
  by (simp_all add: qname_last_neq qname_same_ns)

text \<open>The five steps of \<^verbatim>\<open>update_doc_props\<close>, each on the document the step before left.\<close>

lemma update_doc_props_steps:
  "update_doc_props e root m =
     and_then (setm e root ''title'' (Some (title m)) ''dc'') (\<lambda>r1.
     and_then (setm e r1 ''creator'' (Some (authors_to_string e (authors m))) ''dc'') (\<lambda>r2.
     and_then (if tags m \<noteq> [] then setm e r2 ''keywords'' (Some (join '', '' (tags m))) ''cp''
               else (None, r2)) (\<lambda>r3.
     and_then (if truthy (comments m) then setm e r3 ''description'' (comments m) ''dc''
               else (None, r3)) (\<lambda>r4.
       (case languages m of
          [] \<Rightarrow> (None, r4)
        | l0 # x \<Rightarrow>
            setm e r4 ''language''
              (py_or (lang_as_iso639_1 e (canonicalize_lang e l0)) (canonicalize_lang e l0))
              ''dc'')))))"
  by (simp only: update_doc_props_def Let_def)

lemma update_doc_props_preserves:
  assumes P: "\<And>root name txt ns. P root \<Longrightarrow> P (snd (setm e root name txt ns))"
    and root: "P root"
  shows "P (snd (update_doc_props e root m))"
proof -
  have last: "P (snd (case languages m of
          [] \<Rightarrow> (None, r4)
        | l0 # x \<Rightarrow>
            setm e r4 ''language''
              (py_or (lang_as_iso639_1 e (canonicalize_lang e l0)) (canonicalize_lang e l0))
              ''dc''))" if "P r4" for r4
    using that by (cases "languages m") (simp_all add: P)
  have s4: "P (snd (if truthy (comments m) then setm e r3 ''description'' (comments m) ''dc''
               else (None, r3)))" if "P r3" for r3
    using that by (simp add: P)
  have s3: "P (snd (if tags m \<noteq> [] then setm e r2 ''keywords'' (Some (join '', '' (tags m))) ''cp''
               else (None, r2)))" if "P r2" for r2
    using that by (simp add: P)
  show ?thesis
    unfolding update_doc_props_steps
    apply (rule and_then_preserves)
     apply (rule P [OF root])
    apply (rule and_then_preserves)
     apply (erule P)
    apply (rule and_then_preserves)
     apply (erule s3)
    apply (rule and_then_preserves)
     apply (erule s4)
    apply (erule last)
    done
qed

lemma update_doc_props_at_most_one:
  "length (elements_named T root) \<le> 1 \<Longrightarrow>
   length (elements_named T (snd (update_doc_props e root m))) \<le> 1"
  by (rule update_doc_props_preserves [where P = "\<lambda>r. length (elements_named T r) \<le> 1"])
     (rule setm_at_most_one)

lemma updates_at_most_one:
  "length (elements_named T root) \<le> 1 \<Longrightarrow> length (elements_named T (updates e root ms)) \<le> 1"
proof (induction ms arbitrary: root)
  case Nil
  then show ?case by (simp add: updates_def)
next
  case (Cons m ms)
  from Cons.prems have "length (elements_named T (snd (update_doc_props e root m))) \<le> 1"
    by (rule update_doc_props_at_most_one)
  from Cons.IH [OF this] show ?case by (simp add: updates_def)
qed

lemma and_then_fst: "(fst (and_then r f) = None) = (fst r = None \<and> fst (f (snd r)) = None)"
  by (cases r) (auto simp: and_then_def split: option.split)

lemma not_truthy_valid: "\<not> truthy x \<Longrightarrow> opt_valid x"
  by (auto simp: truthy_def opt_valid_def xml_valid_Nil split: option.splits)

lemma update_doc_props_fst: "(fst (update_doc_props e root m) = None) = props_valid e m"
proof -
  have c: "(truthy (comments m) \<longrightarrow> opt_valid (comments m)) = opt_valid (comments m)"
    using not_truthy_valid by blast
  have t: "(tags m \<noteq> [] \<longrightarrow> xml_valid (join '', '' (tags m))) = xml_valid (join '', '' (tags m))"
    by (cases "tags m = []") (simp_all add: xml_valid_Nil)
  have "(fst (update_doc_props e root m) = None) =
        (xml_valid (title m) \<and> xml_valid (authors_to_string e (authors m)) \<and>
         (tags m \<noteq> [] \<longrightarrow> xml_valid (join '', '' (tags m))) \<and>
         (truthy (comments m) \<longrightarrow> opt_valid (comments m)) \<and>
         (case languages m of
            [] \<Rightarrow> True
          | l0 # x \<Rightarrow>
              opt_valid (py_or (lang_as_iso639_1 e (canonicalize_lang e l0))
                           (canonicalize_lang e l0))))"
    unfolding update_doc_props_steps and_then_fst
    by (cases "languages m") (simp_all add: setm_fst opt_valid_def)
  then show ?thesis by (simp only: c t props_valid_def)
qed

lemma update_doc_props_title:
  assumes "props_valid e m"
  shows "elements_named (qname (namespaces e ''dc'') ''title'') (snd (update_doc_props e root m)) =
         [Element (qname (namespaces e ''dc'') ''title'') [] (Some (title m)) []]"
proof -
  let ?T = "qname (namespaces e ''dc'') ''title''"
  let ?P = "\<lambda>r. elements_named ?T r = [Element ?T [] (Some (title m)) []]"
  from assms have v: "opt_valid (Some (title m))" by (simp add: props_valid_def opt_valid_def)
  have first: "?P (snd (setm e root ''title'' (Some (title m)) ''dc''))"
    using v by (simp add: setm_same)
  have s2: "?P (snd (setm e r ''creator'' x ''dc''))" if "?P r" for r x
    using that by (simp add: setm_other title_tag_other)
  have s3: "?P (snd (if b then setm e r ''keywords'' x ''cp'' else (None, r)))" if "?P r" for r x b
    using that by (simp add: setm_other title_tag_other)
  have s4: "?P (snd (if b then setm e r ''description'' x ''dc'' else (None, r)))" if "?P r" for r x b
    using that by (simp add: setm_other title_tag_other)
  have last: "?P (snd (case languages m of
          [] \<Rightarrow> (None, r4)
        | l0 # x \<Rightarrow>
            setm e r4 ''language''
              (py_or (lang_as_iso639_1 e (canonicalize_lang e l0)) (canonicalize_lang e l0))
              ''dc''))" if "?P r4" for r4
    using that by (cases "languages m") (simp_all add: setm_other title_tag_other)
  show ?thesis
    unfolding update_doc_props_steps
    apply (rule and_then_preserves [where P = ?P])
     apply (rule first)
    apply (rule and_then_preserves [where P = ?P])
     apply (erule s2)
    apply (rule and_then_preserves [where P = ?P])
     apply (erule s3)
    apply (rule and_then_preserves [where P = ?P])
     apply (erule s4)
    apply (erule last)
    done
qed

lemma update_doc_props_one:
  assumes v: "props_valid e m" and one: "length (elements_named T root) = 1"
  shows "length (elements_named T (snd (update_doc_props e root m))) = 1"
proof -
  let ?P = "\<lambda>r. length (elements_named T r) = 1"
  have keep: "?P (snd (setm e r name x ns))" if "?P r" "opt_valid x" for r name x ns
    using that(2,1) by (rule setm_one)
  from v have vs: "opt_valid (Some (title m))" "opt_valid (Some (authors_to_string e (authors m)))"
    "opt_valid (Some (join '', '' (tags m)))" "opt_valid (comments m)"
    by (simp_all add: props_valid_def opt_valid_def)
  have last: "?P (snd (case languages m of
          [] \<Rightarrow> (None, r4)
        | l0 # x \<Rightarrow>
            setm e r4 ''language''
              (py_or (lang_as_iso639_1 e (canonicalize_lang e l0)) (canonicalize_lang e l0))
              ''dc''))" if "?P r4" for r4
  proof (cases "languages m")
    case Nil
    with that show ?thesis by simp
  next
    case (Cons l0 ls)
    with v have "opt_valid (py_or (lang_as_iso639_1 e (canonicalize_lang e l0)) (canonicalize_lang e l0))"
      by (simp add: props_valid_def)
    from keep [OF that this] Cons show ?thesis by simp
  qed
  have s3: "?P (snd (if b then setm e r ''keywords'' (Some (join '', '' (tags m))) ''cp'' else (None, r)))"
    if "?P r" for r b
    using keep [OF that vs(3)] that by (cases b) simp_all
  have s4: "?P (snd (if b then setm e r ''description'' (comments m) ''dc'' else (None, r)))"
    if "?P r" for r b
    using keep [OF that vs(4)] that by (cases b) simp_all
  show ?thesis
    unfolding update_doc_props_steps
    apply (rule and_then_preserves [where P = ?P])
     apply (rule keep [OF one vs(1)])
    apply (rule and_then_preserves [where P = ?P])
     apply (erule keep [OF _ vs(2)])
    apply (rule and_then_preserves [where P = ?P])
     apply (erule s3)
    apply (rule and_then_preserves [where P = ?P])
     apply (erule s4)
    apply (erule last)
    done
qed

lemma updates_one:
  "list_all (props_valid e) ms \<Longrightarrow> length (elements_named T root) = 1 \<Longrightarrow>
   length (elements_named T (updates e root ms)) = 1"
proof (induction ms arbitrary: root)
  case Nil
  then show ?case by (simp add: updates_def)
next
  case (Cons m ms)
  from Cons.prems have "props_valid e m" "list_all (props_valid e) ms" by simp_all
  from update_doc_props_one [OF this(1) Cons.prems(2)] Cons.IH [OF this(2)]
  show ?case by (simp add: updates_def)
qed

lemma and_then_error:
  assumes "fst r = None \<or> fst r = Some ValueError"
    and "\<And>root. fst (f root) = None \<or> fst (f root) = Some ValueError"
  shows "fst (and_then r f) = None \<or> fst (and_then r f) = Some ValueError"
proof (cases "fst r")
  case None
  with assms(2) show ?thesis by (simp add: and_then_ok)
next
  case (Some err)
  with assms(1) show ?thesis by (simp add: and_then_raises)
qed

lemma setm_error: "fst (setm e r n x s) = None \<or> fst (setm e r n x s) = Some ValueError"
  by (simp add: setm_def Let_def)

lemma update_doc_props_error:
  "fst (update_doc_props e root m) = None \<or> fst (update_doc_props e root m) = Some ValueError"
proof -
  have s3: "fst (if b then setm e r n x s else (None, r)) = None \<or>
            fst (if b then setm e r n x s else (None, r)) = Some ValueError" for b r n x s
    using setm_error [of e r n x s] by (cases b) simp_all
  have last: "fst (case languages m of
          [] \<Rightarrow> (None, r4)
        | l0 # x \<Rightarrow>
            setm e r4 ''language''
              (py_or (lang_as_iso639_1 e (canonicalize_lang e l0)) (canonicalize_lang e l0))
              ''dc'') = None \<or>
        fst (case languages m of
          [] \<Rightarrow> (None, r4)
        | l0 # x \<Rightarrow>
            setm e r4 ''language''
              (py_or (lang_as_iso639_1 e (canonicalize_lang e l0)) (canonicalize_lang e l0))
              ''dc'') = Some ValueError" for r4
    using setm_error by (cases "languages m") simp_all
  show ?thesis
    unfolding update_doc_props_steps
    apply (rule and_then_error)
     apply (rule setm_error)
    apply (rule and_then_error)
     apply (rule setm_error)
    apply (rule and_then_error)
     apply (rule s3)
    apply (rule and_then_error)
     apply (rule s3)
    apply (rule last)
    done
qed

text \<open>
  Claim C2, as the code has it. For records whose texts \<^verbatim>\<open>lxml\<close> accepts, updating the
  core properties twice, with \<open>m1\<close> and then \<open>m2\<close>, raises nothing and leaves exactly one
  title element, holding the title of \<open>m2\<close>; the same count holds after any non-empty
  sequence of such updates. For each of the property names of the module, \<^verbatim>\<open>setm\<close>
  with an accepted text leaves exactly one element of the qualified name it sets, the
  new one, whatever the document held before, also after any number of further such
  updates. Whatever the texts are, accepted or not, no more than one element of a
  property name \<^verbatim>\<open>setm\<close> was called with remains after any number of updates.
  With a text \<^verbatim>\<open>lxml\<close> rejects, \<^verbatim>\<open>setm\<close> raises \<open>ValueError\<close> and leaves no element
  of the name it was called with. \<^verbatim>\<open>update_doc_props\<close> raises nothing for the records
  whose texts are all accepted, and \<open>ValueError\<close> for the others.
\<close>

theorem doc_props_replace:
  assumes v1: "props_valid e m1" and v2: "props_valid e m2" and vt: "opt_valid tx"
    and vs: "list_all (props_valid e) ms"
    and nm: "(name, ns) \<in> set property_names" and nm': "(name', ns') \<in> set property_names"
  shows "fst (update_doc_props e root m1) = None \<and>
     fst (update_doc_props e (snd (update_doc_props e root m1)) m2) = None \<and>
     elements_named (qname (namespaces e ''dc'') ''title'')
       (snd (update_doc_props e (snd (update_doc_props e root m1)) m2)) =
       [Element (qname (namespaces e ''dc'') ''title'') [] (Some (title m2)) []] \<and>
     length (elements_named (qname (namespaces e ''dc'') ''title'') (updates e root (m1 # ms))) = 1 \<and>
     fst (setm e root name tx ns) = None \<and>
     elements_named (qname (namespaces e ns) name) (snd (setm e root name tx ns)) =
       [Element (qname (namespaces e ns) name) [] tx []] \<and>
     length (elements_named (qname (namespaces e ns) name)
               (updates e (snd (setm e root name tx ns)) ms)) = 1 \<and>
     length (elements_named (qname (namespaces e ns') name')
               (updates e (snd (setm e root' name' tx' ns')) ms')) \<le> 1 \<and>
     fst (setm e root' name' tx' ns') = (if opt_valid tx' then None else Some ValueError) \<and>
     elements_named (qname (namespaces e ns') name') (snd (setm e root' name' tx' ns')) =
       (if opt_valid tx' then [Element (qname (namespaces e ns') name') [] tx' []] else []) \<and>
     fst (update_doc_props e root' m') = (if props_valid e m' then None else Some ValueError)"
proof -
  from v1 have 1: "fst (update_doc_props e root m1) = None" by (simp only: update_doc_props_fst)
  from v2 have 2: "fst (update_doc_props e (snd (update_doc_props e root m1)) m2) = None"
    by (simp only: update_doc_props_fst)
  note 3 = update_doc_props_title [OF v2, of "snd (update_doc_props e root m1)"]
  have "length (elements_named (qname (namespaces e ''dc'') ''title'')
          (snd (update_doc_props e root m1))) = 1"
    by (simp add: update_doc_props_title [OF v1])
  from updates_one [OF vs this]
  have 4: "length (elements_named (qname (namespaces e ''dc'') ''title'') (updates e root (m1 # ms))) = 1"
    by (simp add: updates_def)
  from vt have 5: "fst (setm e root name tx ns) = None" by (simp only: setm_fst)
  from vt have 6: "elements_named (qname (namespaces e ns) name) (snd (setm e root name tx ns)) =
       [Element (qname (namespaces e ns) name) [] tx []]"
    by (simp add: setm_same)
  then have "length (elements_named (qname (namespaces e ns) name) (snd (setm e root name tx ns))) = 1"
    by simp
  from updates_one [OF vs this]
  have 7: "length (elements_named (qname (namespaces e ns) name)
               (updates e (snd (setm e root name tx ns)) ms)) = 1" .
  have "length (elements_named (qname (namespaces e ns') name') (snd (setm e root' name' tx' ns'))) \<le> 1"
    by (simp add: setm_same)
  then have 8: "length (elements_named (qname (namespaces e ns') name')
               (updates e (snd (setm e root' name' tx' ns')) ms')) \<le> 1"
    by (rule updates_at_most_one)
  have 9: "fst (setm e root' name' tx' ns') = (if opt_valid tx' then None else Some ValueError)"
    by (simp add: setm_def Let_def)
  have 10: "elements_named (qname (namespaces e ns') name') (snd (setm e root' name' tx' ns')) =
       (if opt_valid tx' then [Element (qname (namespaces e ns') name') [] tx' []] else [])"
    by (rule setm_same)
  have 11: "fst (update_doc_props e root' m') = (if props_valid e m' then None else Some ValueError)"
  proof (cases "props_valid e m'")
    case True
    then show ?thesis by (simp add: update_doc_props_fst)
  next
    case False
    then have "fst (update_doc_props e root' m') \<noteq> None" by (simp add: update_doc_props_fst)
    with update_doc_props_error [of e root' m'] False show ?thesis by simp
  qed
  from 1 2 3 4 5 6 7 8 9 10 11 show ?thesis by (intro conjI) assumption+
qed

lemma example_props_valid:
  "props_valid example_env (example_metadata None)"
  "props_valid example_env (example_titled ''Second'')"
  by code_simp+

theorem doc_props_replace_witness:
  "props_valid example_env (example_metadata None) \<and>
   props_valid example_env (example_titled ''Second'') \<and>
   opt_valid (Some ''A. Author'') \<and>
   list_all (props_valid example_env) [example_titled ''Second''] \<and>
   (''creator'', ''dc'') \<in> set property_names \<and>
   (''title'', ''dc'') \<in> set property_names \<and>
   fst (update_doc_props example_env
          (snd (update_doc_props example_env example_root (example_metadata None)))
          (example_titled ''Second'')) = None \<and>
   elements_named (qname (namespaces example_env ''dc'') ''title'')
     (snd (update_doc_props example_env
             (snd (update_doc_props example_env example_root (example_metadata None)))
             (example_titled ''Second''))) =
     [Element (qname (namespaces example_env ''dc'') ''title'') [] (Some ''Second'') []] \<and>
   elements_named (qname (namespaces example_env ''dc'') ''creator'')
     (snd (setm example_env example_root ''creator'' (Some ''A. Author'') ''dc'')) =
     [Element (qname (namespaces example_env ''dc'') ''creator'') [] (Some ''A. Author'') []]"
proof -
  have vt: "opt_valid (Some ''A. Author'')" by code_simp
  have vs: "list_all (props_valid example_env) [example_titled ''Second'']"
    by (simp add: example_props_valid)
  have t: "title (example_titled ''Second'') = ''Second''" by (simp add: example_titled_def)
  have n1: "(''creator'', ''dc'') \<in> set property_names" by (simp add: property_names_def)
  have n2: "(''title'', ''dc'') \<in> set property_names" by (simp add: property_names_def)
  note th = doc_props_replace [OF example_props_valid vt vs n1 n2,
      where root = example_root
        and root' = example_root and tx' = None
        and ms' = "[]" and m' = "example_metadata None", unfolded t]
  from th have a: "fst (update_doc_props example_env
          (snd (update_doc_props example_env example_root (example_metadata None)))
          (example_titled ''Second'')) = None" by (elim conjE)
  from th have b: "elements_named (qname (namespaces example_env ''dc'') ''title'')
     (snd (update_doc_props example_env
             (snd (update_doc_props example_env example_root (example_metadata None)))
             (example_titled ''Second''))) =
     [Element (qname (namespaces example_env ''dc'') ''title'') [] (Some ''Second'') []]"
    by (elim conjE)
  from th have c: "elements_named (qname (namespaces example_env ''dc'') ''creator'')
     (snd (setm example_env example_root ''creator'' (Some ''A. Author'') ''dc'')) =
     [Element (qname (namespaces example_env ''dc'') ''creator'') [] (Some ''A. Author'') []]"
    by (elim conjE)
  from example_props_valid vt vs n1 n2 a b c show ?thesis by (intro conjI) assumption+
qed

text \<open>
  With a second title that has a control character, the second update removes the
  first title and raises \<open>ValueError\<close> before it appends the new one: the document is
  left with no title element.
\<close>

theorem rejected_title_counterexample:
  "elements_named ''{urn:dc}title''
     (snd (update_doc_props example_env example_root (example_titled ''First''))) =
     [Element ''{urn:dc}title'' [] (Some ''First'') []] \<and>
   fst (update_doc_props example_env
          (snd (update_doc_props example_env example_root (example_titled ''First'')))
          (example_titled bad_title)) = Some ValueError \<and>
   elements_named ''{urn:dc}title''
     (snd (update_doc_props example_env
             (snd (update_doc_props example_env example_root (example_titled ''First'')))
             (example_titled bad_title))) = []"
  by code_simp

subsection \<open>The timestamp of the core properties\<close>

lemma digit_no_dot: "d < 10 \<Longrightarrow> digit d \<noteq> CHR ''.''"
proof -
  assume "d < 10"
  then have "digit d \<in> set ''0123456789''"
    unfolding digit_def by (intro nth_mem) simp
  then show ?thesis by auto
qed

lemma fmt_d_no_dot: "CHR ''.'' \<notin> set (fmt_d n)"
proof (induction n rule: fmt_d.induct)
  case (1 n)
  show ?case
  proof (cases "n < 10")
    case True
    then show ?thesis using digit_no_dot [of n] by (auto simp: fmt_d_small)
  next
    case False
    have "n mod 10 < 10" by simp
    from digit_no_dot [OF this] "1.IH" [OF False] False show ?thesis
      by (auto simp: fmt_d_large)
  qed
qed

lemma fmt_0d_no_dot: "CHR ''.'' \<notin> set (fmt_0d w n)"
  using fmt_d_no_dot by (auto simp: fmt_0d_def)

lemma rpartition_absent: "c \<notin> set s \<Longrightarrow> rpartition s c = ([], [], s)"
  by (simp add: rpartition_def)

lemma rpartition_last: "c \<notin> set b \<Longrightarrow> rpartition (a @ [c] @ b) c = (a, [c], b)"
proof -
  assume c: "c \<notin> set b"
  then have "dropWhile (\<lambda>x. x \<noteq> c) (rev b @ c # rev a) = c # rev a"
    by (subst dropWhile_append2) auto
  moreover from c have "takeWhile (\<lambda>x. x \<noteq> c) (rev b @ c # rev a) = rev b"
    by (subst takeWhile_append2) auto
  ultimately show ?thesis by (simp add: rpartition_def)
qed

lemma timestamp_zero_microsecond: "microsecond d = 0 \<Longrightarrow> timestamp d = ''Z''"
proof -
  assume "microsecond d = 0"
  then have "CHR ''.'' \<notin> set (isoformat d (CHR ''T''))"
    using fmt_0d_no_dot by (auto simp: isoformat_def)
  then show ?thesis by (simp add: timestamp_def rpartition_absent)
qed

lemma timestamp_nonzero_microsecond:
  assumes "microsecond d \<noteq> 0"
  shows "timestamp d =
     fmt_0d 4 (year d) @ ''-'' @ fmt_0d 2 (month d) @ ''-'' @ fmt_0d 2 (day d) @ ''T'' @
     fmt_0d 2 (hour d) @ '':'' @ fmt_0d 2 (minute d) @ '':'' @ fmt_0d 2 (second d) @ ''Z''"
proof -
  let ?a = "fmt_0d 4 (year d) @ ''-'' @ fmt_0d 2 (month d) @ ''-'' @ fmt_0d 2 (day d) @ ''T'' @
     fmt_0d 2 (hour d) @ '':'' @ fmt_0d 2 (minute d) @ '':'' @ fmt_0d 2 (second d)"
  let ?b = "fmt_0d 6 (microsecond d) @ (if aware d then ''+00:00'' else [])"
  have b: "CHR ''.'' \<notin> set ?b" using fmt_0d_no_dot by auto
  from assms have "isoformat d (CHR ''T'') = ?a @ [CHR ''.''] @ ?b"
    by (simp add: isoformat_def)
  then have "rpartition (isoformat d (CHR ''T'')) (CHR ''.'') = (?a, [CHR ''.''], ?b)"
    using rpartition_last [OF b, of ?a] by simp
  then show ?thesis by (simp add: timestamp_def)
qed

lemma xml_valid_subset: "xml_valid s \<Longrightarrow> set t \<subseteq> set s \<Longrightarrow> xml_valid t"
  by (auto simp: xml_valid_def list_all_iff)

lemma rpartition_fst_subset: "set (fst (rpartition s c)) \<subseteq> set s"
proof -
  have tl: "set (tl xs) \<subseteq> set xs" for xs :: string
    by (cases xs) auto
  have "set (dropWhile (\<lambda>x. x \<noteq> c) (rev s)) \<subseteq> set (rev s)"
    by (auto dest: set_dropWhileD)
  with tl [of "dropWhile (\<lambda>x. x \<noteq> c) (rev s)"]
  have "set (tl (dropWhile (\<lambda>x. x \<noteq> c) (rev s))) \<subseteq> set s" by auto
  then show ?thesis by (simp add: rpartition_def)
qed

lemma isoformat_valid: "xml_valid (isoformat d (CHR ''T''))"
  by (simp add: isoformat_def xml_valid_append fmt_0d_valid xml_valid_Cons xml_valid_Nil xml_char_def)

lemma timestamp_valid: "xml_valid (timestamp now)"
proof -
  have "xml_valid (fst (rpartition (isoformat now (CHR ''T'')) (CHR ''.'')))"
    using isoformat_valid rpartition_fst_subset by (rule xml_valid_subset)
  then show ?thesis by (simp add: timestamp_def xml_valid_append lit_valid)
qed

lemma append_dates_result:
  "append_dates e cp [''created'', ''modified''] (timestamp now) =
     Inr (Element (tag cp) (attrib cp) (etext cp)
            (children cp @ [date_element e ''created'' (timestamp now),
                            date_element e ''modified'' (timestamp now)]))"
  by (simp add: timestamp_valid lit_valid append_child_def)

lemma core_literals:
  "collect [E_text N ''revision'' ''1'', E_text N ''lastModifiedBy'' ''calibre''] =
     Inr [text_element N ''revision'' ''1'', text_element N ''lastModifiedBy'' ''calibre'']"
  by (simp add: E_text_def lit_valid)

text \<open>The core properties as \<^verbatim>\<open>convert_metadata\<close> hands them to \<^verbatim>\<open>update_doc_props\<close>.\<close>

lemma convert_metadata_result:
  "convert_metadata e now self oeb =
     (case update_doc_props e
             (Element (qname (namespaces e ''cp'') ''coreProperties'') [] None
                [text_element (namespaces e ''cp'') ''revision'' ''1'',
                 text_element (namespaces e ''cp'') ''lastModifiedBy'' ''calibre'',
                 date_element e ''created'' (timestamp now),
                 date_element e ''modified'' (timestamp now)]) oeb of
        (Some err, cp2) \<Rightarrow> (Inl err, self\<lparr>mi := Some oeb\<rparr>)
      | (None, cp2) \<Rightarrow> (Inr (xml2str cp2), self\<lparr>mi := Some oeb\<rparr>))"
  by (simp add: convert_metadata_def Let_def core_literals timestamp_valid lit_valid append_child_def)

lemma convert_metadata_state: "snd (convert_metadata e now self oeb) = self\<lparr>mi := Some oeb\<rparr>"
  by (simp add: convert_metadata_result split: prod.split option.split)

lemma convert_metadata_ok:
  assumes "props_valid e oeb"
  shows "fst (convert_metadata e now self oeb) =
     Inr (XmlDocument (snd (update_doc_props e
             (Element (qname (namespaces e ''cp'') ''coreProperties'') [] None
                [text_element (namespaces e ''cp'') ''revision'' ''1'',
                 text_element (namespaces e ''cp'') ''lastModifiedBy'' ''calibre'',
                 date_element e ''created'' (timestamp now),
                 date_element e ''modified'' (timestamp now)]) oeb)))"
proof -
  let ?cp = "Element (qname (namespaces e ''cp'') ''coreProperties'') [] None
                [text_element (namespaces e ''cp'') ''revision'' ''1'',
                 text_element (namespaces e ''cp'') ''lastModifiedBy'' ''calibre'',
                 date_element e ''created'' (timestamp now),
                 date_element e ''modified'' (timestamp now)]"
  from assms have "fst (update_doc_props e ?cp oeb) = None"
    by (simp only: update_doc_props_fst)
  then obtain cp2 where "update_doc_props e ?cp oeb = (None, cp2)"
    by (cases "update_doc_props e ?cp oeb") auto
  then show ?thesis by (simp add: convert_metadata_result xml2str_def)
qed

lemma convert_metadata_raises:
  "(fst (convert_metadata e now self oeb) = Inl ValueError) = (\<not> props_valid e oeb)"
proof -
  let ?cp = "Element (qname (namespaces e ''cp'') ''coreProperties'') [] None
                [text_element (namespaces e ''cp'') ''revision'' ''1'',
                 text_element (namespaces e ''cp'') ''lastModifiedBy'' ''calibre'',
                 date_element e ''created'' (timestamp now),
                 date_element e ''modified'' (timestamp now)]"
  show ?thesis
  proof (cases "props_valid e oeb")
    case True
    then show ?thesis by (simp add: convert_metadata_ok)
  next
    case False
    then have "fst (update_doc_props e ?cp oeb) \<noteq> None"
      by (simp only: update_doc_props_fst not_False_eq_True)
    with update_doc_props_error [of e ?cp oeb]
    have "fst (update_doc_props e ?cp oeb) = Some ValueError" by blast
    then obtain cp2 where "update_doc_props e ?cp oeb = (Some ValueError, cp2)"
      by (cases "update_doc_props e ?cp oeb") auto
    with False show ?thesis by (simp add: convert_metadata_result)
  qed
qed

lemma update_doc_props_other:
  assumes "T \<noteq> qname (namespaces e ''dc'') ''title''"
    and "T \<noteq> qname (namespaces e ''dc'') ''creator''"
    and "T \<noteq> qname (namespaces e ''cp'') ''keywords''"
    and "T \<noteq> qname (namespaces e ''dc'') ''description''"
    and "T \<noteq> qname (namespaces e ''dc'') ''language''"
  shows "elements_named T (snd (update_doc_props e root m)) = elements_named T root"
proof -
  let ?P = "\<lambda>r. elements_named T r = elements_named T root"
  have s1: "?P (snd (setm e r ''title'' x ''dc''))" if "?P r" for r x
    using that by (simp add: setm_other assms)
  have s2: "?P (snd (setm e r ''creator'' x ''dc''))" if "?P r" for r x
    using that by (simp add: setm_other assms)
  have s3: "?P (snd (if b then setm e r ''keywords'' x ''cp'' else (None, r)))" if "?P r" for r x b
    using that by (simp add: setm_other assms)
  have s4: "?P (snd (if b then setm e r ''description'' x ''dc'' else (None, r)))" if "?P r" for r x b
    using that by (simp add: setm_other assms)
  have last: "?P (snd (case languages m of
          [] \<Rightarrow> (None, r4)
        | l0 # x \<Rightarrow>
            setm e r4 ''language''
              (py_or (lang_as_iso639_1 e (canonicalize_lang e l0)) (canonicalize_lang e l0))
              ''dc''))" if "?P r4" for r4
    using that by (cases "languages m") (simp_all add: setm_other assms)
  show ?thesis
    unfolding update_doc_props_steps
    apply (rule and_then_preserves [where P = ?P])
     apply (rule s1)
     apply (rule refl)
    apply (rule and_then_preserves [where P = ?P])
     apply (erule s2)
    apply (rule and_then_preserves [where P = ?P])
     apply (erule s3)
    apply (rule and_then_preserves [where P = ?P])
     apply (erule s4)
    apply (erule last)
    done
qed

lemma convert_metadata_dates:
  assumes "props_valid e oeb"
  shows "\<exists>doc. fst (convert_metadata e now self oeb) = Inr doc \<and>
     filter (\<lambda>c. tag c = qname (namespaces e ''dcterms'') ''created'') (root_children doc) =
       [date_element e ''created'' (timestamp now)] \<and>
     filter (\<lambda>c. tag c = qname (namespaces e ''dcterms'') ''modified'') (root_children doc) =
       [date_element e ''modified'' (timestamp now)]"
proof -
  let ?cp = "Element (qname (namespaces e ''cp'') ''coreProperties'') [] None
                [text_element (namespaces e ''cp'') ''revision'' ''1'',
                 text_element (namespaces e ''cp'') ''lastModifiedBy'' ''calibre'',
                 date_element e ''created'' (timestamp now),
                 date_element e ''modified'' (timestamp now)]"
  let ?doc = "XmlDocument (snd (update_doc_props e ?cp oeb))"
  let ?C = "qname (namespaces e ''dcterms'') ''created''"
  let ?M = "qname (namespaces e ''dcterms'') ''modified''"
  have r: "fst (convert_metadata e now self oeb) = Inr ?doc"
    using assms by (rule convert_metadata_ok)
  have neq: "?C \<noteq> qname (namespaces e ''cp'') ''revision''"
       "?C \<noteq> qname (namespaces e ''cp'') ''lastModifiedBy''"
       "?M \<noteq> qname (namespaces e ''cp'') ''revision''"
       "?M \<noteq> qname (namespaces e ''cp'') ''lastModifiedBy''"
       "?C \<noteq> ?M"
    by (simp_all add: qname_last_neq qname_same_ns)
  have "elements_named ?C (snd (update_doc_props e ?cp oeb)) = elements_named ?C ?cp"
    by (rule update_doc_props_other) (simp_all add: qname_last_neq)
  also have "\<dots> = [date_element e ''created'' (timestamp now)]"
    using neq by (simp add: elements_named_def text_element_def date_element_def)
  finally have c: "filter (\<lambda>c. tag c = ?C) (root_children ?doc) =
       [date_element e ''created'' (timestamp now)]"
    by (simp add: elements_named_def root_children_def)
  have "elements_named ?M (snd (update_doc_props e ?cp oeb)) = elements_named ?M ?cp"
    by (rule update_doc_props_other) (simp_all add: qname_last_neq)
  also have "\<dots> = [date_element e ''modified'' (timestamp now)]"
    using neq by (simp add: elements_named_def text_element_def date_element_def)
  finally have m: "filter (\<lambda>c. tag c = ?M) (root_children ?doc) =
       [date_element e ''modified'' (timestamp now)]"
    by (simp add: elements_named_def root_children_def)
  from r c m show ?thesis by (intro exI [of _ ?doc] conjI) assumption+
qed

text \<open>
  Claim C5 says that the created and modified elements hold the current UTC instant to
  the second, followed by \<^verbatim>\<open>Z\<close>, at every instant. At an instant whose microsecond
  field is 0, here 2013-06-01 12:34:56 UTC, \<^verbatim>\<open>isoformat\<close> prints no fraction, the text
  has no dot, \<^verbatim>\<open>rpartition('.')[0]\<close> is empty, and for every record whose texts \<^verbatim>\<open>lxml\<close>
  accepts \<^verbatim>\<open>convert_metadata\<close> returns core properties in which both elements hold the
  text \<^verbatim>\<open>Z\<close> alone. For the other records, and only for them, \<^verbatim>\<open>convert_metadata\<close>
  raises \<open>ValueError\<close>, at any instant, and returns no document. (At every instant with a
  non-zero microsecond field the text is as the claim says:
  \<open>timestamp_nonzero_microsecond\<close>.)
\<close>

theorem timestamp_zero_microsecond_lost:
  assumes "props_valid e oeb"
  shows "isoformat \<lparr>year = 2013, month = 6, day = 1, hour = 12, minute = 34, second = 56,
              microsecond = 0, aware = True\<rparr> (CHR ''T'') = ''2013-06-01T12:34:56+00:00'' \<and>
   timestamp \<lparr>year = 2013, month = 6, day = 1, hour = 12, minute = 34, second = 56,
              microsecond = 0, aware = True\<rparr> = ''Z'' \<and>
   (\<exists>doc. fst (convert_metadata e
               \<lparr>year = 2013, month = 6, day = 1, hour = 12, minute = 34, second = 56,
                microsecond = 0, aware = True\<rparr> self oeb) = Inr doc \<and>
      filter (\<lambda>c. tag c = qname (namespaces e ''dcterms'') ''created'') (root_children doc) =
        [Element (qname (namespaces e ''dcterms'') ''created'')
           [(qname (namespaces e ''xsi'') ''type'', ''dcterms:W3CDTF'')] (Some ''Z'') []] \<and>
      filter (\<lambda>c. tag c = qname (namespaces e ''dcterms'') ''modified'') (root_children doc) =
        [Element (qname (namespaces e ''dcterms'') ''modified'')
           [(qname (namespaces e ''xsi'') ''type'', ''dcterms:W3CDTF'')] (Some ''Z'') []]) \<and>
   (fst (convert_metadata e any_now any_self any_oeb) = Inl ValueError) =
     (\<not> props_valid e any_oeb)"
proof -
  let ?now = "\<lparr>year = 2013, month = 6, day = 1, hour = 12, minute = 34, second = 56,
              microsecond = 0, aware = True\<rparr>"
  have iso: "isoformat ?now (CHR ''T'') = ''2013-06-01T12:34:56+00:00''" by code_simp
  have ts: "timestamp ?now = ''Z''" by (rule timestamp_zero_microsecond) simp
  note d = convert_metadata_dates [OF assms, of ?now self, unfolded ts date_element_def]
  have r: "(fst (convert_metadata e any_now any_self any_oeb) = Inl ValueError) =
     (\<not> props_valid e any_oeb)"
    by (rule convert_metadata_raises)
  from iso ts d r show ?thesis by (intro conjI) assumption+
qed

theorem timestamp_zero_microsecond_lost_witness:
  "props_valid example_env (example_metadata None) \<and>
   timestamp \<lparr>year = 2013, month = 6, day = 1, hour = 12, minute = 34, second = 56,
              microsecond = 0, aware = True\<rparr> = ''Z'' \<and>
   (\<exists>doc. fst (convert_metadata example_env
               \<lparr>year = 2013, month = 6, day = 1, hour = 12, minute = 34, second = 56,
                microsecond = 0, aware = True\<rparr> (example_assembler []) (example_metadata None)) =
             Inr doc \<and>
      filter (\<lambda>c. tag c = qname (namespaces example_env ''dcterms'') ''created'') (root_children doc) =
        [Element (qname (namespaces example_env ''dcterms'') ''created'')
           [(qname (namespaces example_env ''xsi'') ''type'', ''dcterms:W3CDTF'')] (Some ''Z'') []] \<and>
      filter (\<lambda>c. tag c = qname (namespaces example_env ''dcterms'') ''modified'') (root_children doc) =
        [Element (qname (namespaces example_env ''dcterms'') ''modified'')
           [(qname (namespaces example_env ''xsi'') ''type'', ''dcterms:W3CDTF'')] (Some ''Z'') []])"
proof -
  note t = timestamp_zero_microsecond_lost [OF example_props_valid(1),
      where self = "example_assembler []" and any_now = example_now
        and any_self = "example_assembler []" and any_oeb = "example_metadata None"]
  from t have a: "timestamp \<lparr>year = 2013, month = 6, day = 1, hour = 12, minute = 34, second = 56,
              microsecond = 0, aware = True\<rparr> = ''Z''" by (elim conjE)
  from t have b: "\<exists>doc. fst (convert_metadata example_env
               \<lparr>year = 2013, month = 6, day = 1, hour = 12, minute = 34, second = 56,
                microsecond = 0, aware = True\<rparr> (example_assembler []) (example_metadata None)) =
             Inr doc \<and>
      filter (\<lambda>c. tag c = qname (namespaces example_env ''dcterms'') ''created'') (root_children doc) =
        [Element (qname (namespaces example_env ''dcterms'') ''created'')
           [(qname (namespaces example_env ''xsi'') ''type'', ''dcterms:W3CDTF'')] (Some ''Z'') []] \<and>
      filter (\<lambda>c. tag c = qname (namespaces example_env ''dcterms'') ''modified'') (root_children doc) =
        [Element (qname (namespaces example_env ''dcterms'') ''modified'')
           [(qname (namespaces example_env ''xsi'') ''type'', ''dcterms:W3CDTF'')] (Some ''Z'') []]"
    by (elim conjE)
  from example_props_valid(1) a b show ?thesis by (intro conjI) assumption+
qed

subsection \<open>The content-type manifest\<close>

lemma default_entries_append:
  "default_entries e (xs @ ys) = default_entries e xs @ default_entries e ys"
  by (simp add: default_entries_def)

lemma Override_not_Default: "tag (Override e p mt) \<noteq> qname (namespaces e ''ct'') ''Default''"
  by (simp add: Override_def qname_same_ns)

lemma default_entries_Override:
  "default_entries e (map (\<lambda>(p, mt). Override e p mt) xs) = []"
  by (induction xs) (auto simp: default_entries_def Override_not_Default)

lemma default_entries_Default:
  "default_entries e [Default e ext mt] = [(Some ext, Some mt)]"
  by (simp add: default_entries_def Default_def)

lemma default_entries_Defaults:
  "default_entries e (map (\<lambda>(ext, mt). Default e ext mt) xs) =
   map (\<lambda>(ext, mt). (Some ext, Some mt)) xs"
  by (induction xs) (auto simp: default_entries_def Default_def)

lemma add_guessed_defaults_ok:
  "map (\<lambda>ext. guess_type e (''a.'' @ ext)) exts = map Some mts \<Longrightarrow>
   add_guessed_defaults e exts types =
     Inr (Element (tag types) (attrib types) (etext types)
            (children types @ map (\<lambda>(ext, mt). Default e ext mt) (zip exts mts)))"
proof (induction exts arbitrary: types mts)
  case Nil
  then show ?case by simp
next
  case (Cons ext exts)
  then obtain mt mts' where mts: "mts = mt # mts'" by (cases mts) auto
  with Cons.prems have g: "guess_type e (''a.'' @ ext) = Some mt"
    and rest: "map (\<lambda>ext. guess_type e (''a.'' @ ext)) exts = map Some mts'" by simp_all
  have "ElementMaker (namespaces e ''ct'') ''Default''
          [(''Extension'', Some ext), (''ContentType'', Some mt)] = Inr (Default e ext mt)"
    by (simp add: ElementMaker_def Default_def)
  with g Cons.IH [OF rest, of "append_child types (Default e ext mt)"] show ?case
    by (simp add: mts append_child_def)
qed

lemma add_guessed_defaults_raises:
  "ext \<in> set exts \<Longrightarrow> guess_type e (''a.'' @ ext) = None \<Longrightarrow>
   add_guessed_defaults e exts types = Inl KeyError"
proof (induction exts arbitrary: types)
  case Nil
  then show ?case by simp
next
  case (Cons x exts)
  show ?case
  proof (cases "guess_type e (''a.'' @ x)")
    case None
    then show ?thesis by (simp add: ElementMaker_def)
  next
    case (Some mt)
    with Cons.prems have "ext \<in> set exts" by auto
    from Cons.IH [OF this Cons.prems(2)] Some show ?thesis
      by (simp add: ElementMaker_def)
  qed
qed

lemma all_Some_map:
  "\<forall>x\<in>set xs. f x \<noteq> None \<Longrightarrow> \<exists>ys. map f xs = map Some ys"
proof (induction xs)
  case Nil
  then show ?case by simp
next
  case (Cons x xs)
  then obtain ys where "map f xs = map Some ys" by auto
  moreover from Cons.prems obtain y where "f x = Some y" by auto
  ultimately have "map f (x # xs) = map Some (y # ys)" by simp
  then show ?case by blast
qed

lemma foldl_overrides:
  "foldl (\<lambda>types (partname, mt). append_child types (Override e partname mt)) types xs =
   Element (tag types) (attrib types) (etext types)
     (children types @ map (\<lambda>(p, mt). Override e p mt) xs)"
  by (induction xs arbitrary: types) (auto simp: append_child_def)

lemma foldl_defaults:
  "foldl (\<lambda>(added, types) (ext, mt). (set_add added ext, append_child types (Default e ext mt)))
     (added, types) xs =
   (foldl set_add added (map fst xs),
    Element (tag types) (attrib types) (etext types)
      (children types @ map (\<lambda>(ext, mt). Default e ext mt) xs))"
  by (induction xs arbitrary: added types) (auto simp: append_child_def)

lemma set_add_set: "set (set_add s x) = insert x (set s)"
  by (auto simp: set_add_def)

lemma foldl_set_add_set: "set (foldl set_add s xs) = set s \<union> set xs"
  by (induction xs arbitrary: s) (auto simp: set_add_set)

lemma display_override_parts: "dict_display override_parts = override_parts"
  by (simp add: dict_display_def override_parts_def)

lemma display_default_parts: "dict_display default_parts = default_parts"
  by (simp add: dict_display_def default_parts_def)

lemma image_default_cases:
  "image_default e (added, types) fname = (added, types) \<or>
   (\<exists>ext. ext \<notin> set added \<and>
      (image_default e (added, types) fname = (set_add added ext, types) \<and>
         \<not> truthy (guess_type e (''a.'' @ ext)) \<or>
       (\<exists>mt. mt \<noteq> [] \<and> guess_type e (''a.'' @ ext) = Some mt \<and>
          image_default e (added, types) fname =
            (set_add added ext, append_child types (Default e ext mt)))))"
  by (auto simp: image_default_def Let_def truthy_def split: option.split)

lemma image_loop:
  "\<exists>added' new.
     foldl (image_default e) (added, types) names =
       (added', Element (tag types) (attrib types) (etext types)
                  (children types @ map (\<lambda>(ext, mt). Default e ext mt) new)) \<and>
     set added \<subseteq> set added' \<and> distinct (map fst new) \<and>
     set (map fst new) \<inter> set added = {} \<and> set (map fst new) \<subseteq> set added' \<and>
     (\<forall>(ext, mt)\<in>set new. mt \<noteq> [] \<and> guess_type e (''a.'' @ ext) = Some mt)"
proof (induction names arbitrary: added types)
  case Nil
  have "foldl (image_default e) (added, types) [] =
       (added, Element (tag types) (attrib types) (etext types)
                  (children types @ map (\<lambda>(ext, mt). Default e ext mt) []))"
    by simp
  then show ?case by (intro exI [of _ added] exI [of _ "[]"]) simp
next
  case (Cons fname names)
  consider
    (same) "image_default e (added, types) fname = (added, types)"
  | (skip) ext where "ext \<notin> set added"
      "image_default e (added, types) fname = (set_add added ext, types)"
  | (add) ext mt where "ext \<notin> set added" "mt \<noteq> []" "guess_type e (''a.'' @ ext) = Some mt"
      "image_default e (added, types) fname =
         (set_add added ext, append_child types (Default e ext mt))"
    using image_default_cases [of e added types fname] by blast
  then show ?case
  proof cases
    case same
    from Cons.IH [of added types] same show ?thesis by simp
  next
    case skip
    from Cons.IH [of "set_add added ext" types] obtain added' new where
      r: "foldl (image_default e) (set_add added ext, types) names =
            (added', Element (tag types) (attrib types) (etext types)
                  (children types @ map (\<lambda>(ext, mt). Default e ext mt) new))"
      and p: "set (set_add added ext) \<subseteq> set added'" "distinct (map fst new)"
        "set (map fst new) \<inter> set (set_add added ext) = {}" "set (map fst new) \<subseteq> set added'"
        "\<forall>(ext, mt)\<in>set new. mt \<noteq> [] \<and> guess_type e (''a.'' @ ext) = Some mt"
      by blast
    from p have "set added \<subseteq> set added'" "set (map fst new) \<inter> set added = {}"
      by (auto simp: set_add_set)
    with r p skip show ?thesis
      by (intro exI [of _ added'] exI [of _ new]) simp
  next
    case add
    let ?types = "append_child types (Default e ext mt)"
    from Cons.IH [of "set_add added ext" ?types] obtain added' new where
      r: "foldl (image_default e) (set_add added ext, ?types) names =
            (added', Element (tag ?types) (attrib ?types) (etext ?types)
                  (children ?types @ map (\<lambda>(ext, mt). Default e ext mt) new))"
      and p: "set (set_add added ext) \<subseteq> set added'" "distinct (map fst new)"
        "set (map fst new) \<inter> set (set_add added ext) = {}" "set (map fst new) \<subseteq> set added'"
        "\<forall>(ext, mt)\<in>set new. mt \<noteq> [] \<and> guess_type e (''a.'' @ ext) = Some mt"
      by blast
    let ?new = "(ext, mt) # new"
    from r add have "foldl (image_default e) (added, types) (fname # names) =
       (added', Element (tag types) (attrib types) (etext types)
                  (children types @ map (\<lambda>(ext, mt). Default e ext mt) ?new))"
      by (simp add: append_child_def)
    moreover from p have "set added \<subseteq> set added'" by (auto simp: set_add_set)
    moreover from p have "distinct (map fst ?new)" by (auto simp: set_add_set)
    moreover from p add have "set (map fst ?new) \<inter> set added = {}" by (auto simp: set_add_set)
    moreover from p have "set (map fst ?new) \<subseteq> set added'" by (auto simp: set_add_set)
    moreover from p add have "\<forall>(ext, mt)\<in>set ?new. mt \<noteq> [] \<and> guess_type e (''a.'' @ ext) = Some mt"
      by simp
    ultimately show ?thesis by blast
  qed
qed

lemma six_guessed:
  assumes "None \<notin> (\<lambda>ext. guess_type e (''a.'' @ ext)) ` set added_init"
  shows "\<exists>mts. map (\<lambda>ext. guess_type e (''a.'' @ ext)) (iter_order (iter_strs e) added_init) =
           map Some mts"
proof (rule all_Some_map, rule ballI)
  fix ext
  assume "ext \<in> set (iter_order (iter_strs e) added_init)"
  then have "ext \<in> set added_init" by (simp only: iter_order_set)
  then have "guess_type e (''a.'' @ ext) \<in> (\<lambda>ext. guess_type e (''a.'' @ ext)) ` set added_init"
    by (rule imageI)
  with assms show "guess_type e (''a.'' @ ext) \<noteq> None" by metis
qed

lemma added_after_defaults:
  "set (foldl set_add added_init (map fst (iter_order (iter_pairs e) default_parts))) =
   set added_init \<union> {''rels'', ''odttf''}"
proof -
  have "set (map fst (iter_order (iter_pairs e) default_parts)) = fst ` set default_parts"
    by (simp only: set_map iter_order_set)
  also have "\<dots> = {''rels'', ''odttf''}" by (simp add: default_parts_def)
  finally show ?thesis by (simp only: foldl_set_add_set)
qed

lemma contenttypes_shape:
  assumes img: "images self = Some imgs"
    and g: "None \<notin> (\<lambda>ext. guess_type e (''a.'' @ ext)) ` set added_init"
  shows "\<exists>mts new. contenttypes e self =
      Inr (XmlDocument (Element (qname (namespaces e ''ct'') ''Types'') [] None
        (map (\<lambda>(p, mt). Override e p mt) (iter_order (iter_pairs e) override_parts) @
         map (\<lambda>(ext, mt). Default e ext mt) (zip (iter_order (iter_strs e) added_init) mts) @
         map (\<lambda>(ext, mt). Default e ext mt) (iter_order (iter_pairs e) default_parts) @
         map (\<lambda>(ext, mt). Default e ext mt) new))) \<and>
     map (\<lambda>ext. guess_type e (''a.'' @ ext)) (iter_order (iter_strs e) added_init) = map Some mts \<and>
     distinct (map fst new) \<and> set (map fst new) \<inter> (set added_init \<union> {''rels'', ''odttf''}) = {} \<and>
     (\<forall>(ext, mt)\<in>set new. mt \<noteq> [] \<and> guess_type e (''a.'' @ ext) = Some mt)"
proof -
  let ?six = "iter_order (iter_strs e) added_init"
  let ?two = "iter_order (iter_pairs e) default_parts"
  let ?T = "qname (namespaces e ''ct'') ''Types''"
  let ?types0 = "Element ?T [] None []"
  let ?c1 = "map (\<lambda>(p, mt). Override e p mt) (iter_order (iter_pairs e) override_parts)"
  from six_guessed [OF g] obtain mts where
    mts: "map (\<lambda>ext. guess_type e (''a.'' @ ext)) ?six = map Some mts" by blast
  let ?c2 = "?c1 @ map (\<lambda>(ext, mt). Default e ext mt) (zip ?six mts)"
  let ?c3 = "?c2 @ map (\<lambda>(ext, mt). Default e ext mt) ?two"
  let ?added = "foldl set_add added_init (map fst ?two)"
  have t1: "foldl (\<lambda>types (partname, mt). append_child types (Override e partname mt))
              ?types0 (iter_order (iter_pairs e) (dict_display override_parts)) = Element ?T [] None ?c1"
    by (simp only: foldl_overrides display_override_parts xml.sel append_Nil)
  have t2: "add_guessed_defaults e ?six (Element ?T [] None ?c1) = Inr (Element ?T [] None ?c2)"
    by (simp only: add_guessed_defaults_ok [OF mts] xml.sel)
  have t3: "foldl (\<lambda>(added, types) (ext, mt).
               (set_add added ext, append_child types (Default e ext mt)))
             (added_init, Element ?T [] None ?c2) (iter_order (iter_pairs e) (dict_display default_parts)) =
            (?added, Element ?T [] None ?c3)"
    by (simp only: foldl_defaults display_default_parts xml.sel)
  from image_loop [of e ?added "Element ?T [] None ?c3" "map fst (iter_order (iter_images e) imgs)"]
  obtain added' new where
    r: "foldl (image_default e) (?added, Element ?T [] None ?c3) (map fst (iter_order (iter_images e) imgs)) =
          (added', Element ?T [] None (?c3 @ map (\<lambda>(ext, mt). Default e ext mt) new))"
    and p: "distinct (map fst new)" "set (map fst new) \<inter> set ?added = {}"
      "\<forall>(ext, mt)\<in>set new. mt \<noteq> [] \<and> guess_type e (''a.'' @ ext) = Some mt"
    unfolding xml.sel by blast
  have "contenttypes e self =
      Inr (XmlDocument (Element ?T [] None (?c3 @ map (\<lambda>(ext, mt). Default e ext mt) new)))"
    by (simp only: contenttypes_def Let_def t1 t2 t3 sum.case img option.case r snd_conv xml2str_def)
  moreover from p(2) have "set (map fst new) \<inter> (set added_init \<union> {''rels'', ''odttf''}) = {}"
    by (simp only: added_after_defaults)
  ultimately show ?thesis using mts p(1,3) by (simp only: append_assoc) blast
qed

lemma entries_fst:
  "map fst (map (\<lambda>(ext, mt). (Some ext, Some mt)) xs) = map Some (map fst xs)"
  by (induction xs) auto

lemma default_parts_keys_distinct:
  "distinct (map fst (iter_order (iter_pairs e) default_parts))"
proof -
  have "mset (map fst (iter_order (iter_pairs e) default_parts)) = mset (map fst default_parts)"
    by (simp add: iter_order_mset)
  moreover have "distinct (map fst default_parts)" by (simp add: default_parts_def)
  ultimately show ?thesis by (metis mset_eq_imp_distinct_iff)
qed

lemma added_init_distinct: "distinct (iter_order (iter_strs e) added_init)"
  by (simp add: iter_order_distinct added_init_def)

lemma default_entries_manifest: "default_entries e (root_children (XmlDocument (Element T [] None
        (map (\<lambda>(p, mt). Override e p mt) ov @
         map (\<lambda>(ext, mt). Default e ext mt) a @
         map (\<lambda>(ext, mt). Default e ext mt) b @
         map (\<lambda>(ext, mt). Default e ext mt) c)))) =
       map (\<lambda>(ext, mt). (Some ext, Some mt)) (a @ b @ c)"
  by (simp only: root_children_def blob.case xml.sel default_entries_append default_entries_Override
        default_entries_Defaults map_append append_Nil)

lemma manifest_entries:
  assumes img: "images self = Some imgs"
    and g: "None \<notin> (\<lambda>ext. guess_type e (''a.'' @ ext)) ` set added_init"
  shows "\<exists>doc mts new. contenttypes e self = Inr doc \<and>
     default_entries e (root_children doc) =
       map (\<lambda>(ext, mt). (Some ext, Some mt))
         (zip (iter_order (iter_strs e) added_init) mts @
          iter_order (iter_pairs e) default_parts @ new) \<and>
     map (\<lambda>ext. guess_type e (''a.'' @ ext)) (iter_order (iter_strs e) added_init) = map Some mts \<and>
     distinct (map fst new) \<and> set (map fst new) \<inter> (set added_init \<union> {''rels'', ''odttf''}) = {} \<and>
     (\<forall>(ext, mt)\<in>set new. mt \<noteq> [] \<and> guess_type e (''a.'' @ ext) = Some mt)"
proof -
  from contenttypes_shape [OF img g] obtain mts new where
    c: "contenttypes e self =
      Inr (XmlDocument (Element (qname (namespaces e ''ct'') ''Types'') [] None
        (map (\<lambda>(p, mt). Override e p mt) (iter_order (iter_pairs e) override_parts) @
         map (\<lambda>(ext, mt). Default e ext mt) (zip (iter_order (iter_strs e) added_init) mts) @
         map (\<lambda>(ext, mt). Default e ext mt) (iter_order (iter_pairs e) default_parts) @
         map (\<lambda>(ext, mt). Default e ext mt) new)))"
    and p: "map (\<lambda>ext. guess_type e (''a.'' @ ext)) (iter_order (iter_strs e) added_init) = map Some mts"
     "distinct (map fst new)" "set (map fst new) \<inter> (set added_init \<union> {''rels'', ''odttf''}) = {}"
     "\<forall>(ext, mt)\<in>set new. mt \<noteq> [] \<and> guess_type e (''a.'' @ ext) = Some mt"
    by (elim exE conjE)
  let ?doc = "XmlDocument (Element (qname (namespaces e ''ct'') ''Types'') [] None
        (map (\<lambda>(p, mt). Override e p mt) (iter_order (iter_pairs e) override_parts) @
         map (\<lambda>(ext, mt). Default e ext mt) (zip (iter_order (iter_strs e) added_init) mts) @
         map (\<lambda>(ext, mt). Default e ext mt) (iter_order (iter_pairs e) default_parts) @
         map (\<lambda>(ext, mt). Default e ext mt) new))"
  have "default_entries e (root_children ?doc) =
       map (\<lambda>(ext, mt). (Some ext, Some mt))
         (zip (iter_order (iter_strs e) added_init) mts @
          iter_order (iter_pairs e) default_parts @ new)"
    by (rule default_entries_manifest)
  with c p show ?thesis
    by (intro exI [of _ ?doc] exI [of _ mts] exI [of _ new] conjI) assumption+
qed

lemma fixed_disjoint:
  "set (iter_order (iter_strs e) added_init) \<inter> set (map fst (iter_order (iter_pairs e) default_parts)) = {}"
proof -
  have "set (map fst (iter_order (iter_pairs e) default_parts)) = fst ` set default_parts"
    by (simp only: set_map iter_order_set)
  then show ?thesis by (simp add: iter_order_set default_parts_def added_init_def)
qed

lemma zip_guessed:
  "map f xs = map Some ys \<Longrightarrow>
   map (\<lambda>(x, y). (Some x, Some y)) (zip xs ys) = map (\<lambda>x. (Some x, f x)) xs"
proof (induction xs arbitrary: ys)
  case Nil
  then show ?case by simp
next
  case (Cons x xs)
  then obtain y ys' where "ys = y # ys'" by (cases ys) auto
  with Cons show ?case by auto
qed

lemma manifest_defaults_entries:
  assumes img: "images self = Some imgs"
    and g: "None \<notin> (\<lambda>ext. guess_type e (''a.'' @ ext)) ` set added_init"
  shows "\<exists>new. manifest_defaults e self =
       Inr (map (\<lambda>x. (Some x, guess_type e (''a.'' @ x))) (iter_order (iter_strs e) added_init) @
            map (\<lambda>(ext, mt). (Some ext, Some mt)) (iter_order (iter_pairs e) default_parts) @
            map (\<lambda>(ext, mt). (Some ext, Some mt)) new) \<and>
     distinct (map fst new) \<and> set (map fst new) \<inter> (set added_init \<union> {''rels'', ''odttf''}) = {} \<and>
     (\<forall>(ext, mt)\<in>set new. mt \<noteq> [] \<and> guess_type e (''a.'' @ ext) = Some mt)"
proof -
  let ?six = "iter_order (iter_strs e) added_init"
  let ?two = "iter_order (iter_pairs e) default_parts"
  from manifest_entries [OF assms] obtain doc mts new where
    c: "contenttypes e self = Inr doc"
    and d: "default_entries e (root_children doc) =
       map (\<lambda>(ext, mt). (Some ext, Some mt)) (zip ?six mts @ ?two @ new)"
    and m: "map (\<lambda>ext. guess_type e (''a.'' @ ext)) ?six = map Some mts"
    and p: "distinct (map fst new)" "set (map fst new) \<inter> (set added_init \<union> {''rels'', ''odttf''}) = {}"
      "\<forall>(ext, mt)\<in>set new. mt \<noteq> [] \<and> guess_type e (''a.'' @ ext) = Some mt"
    by (elim exE conjE)
  have "manifest_defaults e self =
       Inr (map (\<lambda>x. (Some x, guess_type e (''a.'' @ x))) ?six @
            map (\<lambda>(ext, mt). (Some ext, Some mt)) ?two @
            map (\<lambda>(ext, mt). (Some ext, Some mt)) new)"
    by (simp only: manifest_defaults_def c sum.case d map_append zip_guessed [OF m])
  with p show ?thesis
    by (intro exI [of _ new] conjI) assumption+
qed

lemma example_guess_known:
  "None \<notin> (\<lambda>ext. guess_type example_env (''a.'' @ ext)) ` set added_init"
  by (simp add: example_env_fields added_init_def example_guess_type_def)

lemma example_images: "images (example_assembler imgs) = Some imgs"
  by (simp add: example_assembler_def)

lemma example_manifest:
  "manifest_defaults example_env
            (example_assembler [(''README'', Inr ''r''), (''images/a.bmp'', Inr ''a''),
                                (''images/b.bmp'', Inr ''b''), (''c.png'', Inr ''c'')]) =
   Inr [(Some ''xml'', Some ''application/xml''),
      (Some ''svg'', Some ''image/svg+xml''),
      (Some ''jpg'', Some ''image/jpeg''),
      (Some ''jpeg'', Some ''image/jpeg''),
      (Some ''gif'', Some ''image/gif''),
      (Some ''png'', Some ''image/png''),
      (Some ''odttf'', Some ''application/vnd.openxmlformats-officedocument.obfuscatedFont''),
      (Some ''rels'', Some ''application/vnd.openxmlformats-package.relationships+xml''),
      (Some ''bmp'', Some ''image/bmp'')]"
  by code_simp

lemma default_parts_types: "(ext, mt) \<in> set default_parts \<Longrightarrow> mt \<noteq> []"
  by (auto simp: default_parts_def)

text \<open>
  Claim C3. Let the \<^verbatim>\<open>images\<close> attribute be set, to images of any names, with or
  without a dot, and let the lookup know a type for each of the six extensions of the
  first loop, which passes the lookup's result to the element maker as it is. Then
  \<^verbatim>\<open>contenttypes\<close> returns a manifest instead of raising, and the \<^verbatim>\<open>Extension\<close> attributes
  of its \<^verbatim>\<open>Default\<close> elements are pairwise distinct.
\<close>

theorem manifest_extensions_distinct:
  assumes "images self = Some imgs"
    and "None \<notin> (\<lambda>ext. guess_type e (''a.'' @ ext)) ` set added_init"
  shows "\<exists>ds. manifest_defaults e self = Inr ds \<and> distinct (map fst ds)"
proof -
  let ?six = "iter_order (iter_strs e) added_init"
  let ?two = "iter_order (iter_pairs e) default_parts"
  from manifest_defaults_entries [OF assms] obtain new where
    d: "manifest_defaults e self =
       Inr (map (\<lambda>x. (Some x, guess_type e (''a.'' @ x))) ?six @
            map (\<lambda>(ext, mt). (Some ext, Some mt)) ?two @
            map (\<lambda>(ext, mt). (Some ext, Some mt)) new)"
    and p: "distinct (map fst new)" "set (map fst new) \<inter> (set added_init \<union> {''rels'', ''odttf''}) = {}"
    by (elim exE conjE)
  have "set (map fst ?two) = fst ` set default_parts"
    by (simp only: set_map iter_order_set)
  then have two: "set (map fst ?two) = {''rels'', ''odttf''}"
    by (simp add: default_parts_def)
  have "distinct (?six @ map fst ?two @ map fst new)"
    using added_init_distinct [of e] default_parts_keys_distinct [of e] fixed_disjoint [of e] p
    by (simp only: distinct_append two set_append iter_order_set) blast
  then have "distinct (map Some (?six @ map fst ?two @ map fst new))"
    by (simp only: distinct_map) simp
  moreover have "map fst (map (\<lambda>x. (Some x, guess_type e (''a.'' @ x))) ?six) = map Some ?six"
    by simp
  ultimately have "distinct (map fst
       (map (\<lambda>x. (Some x, guess_type e (''a.'' @ x))) ?six @
            map (\<lambda>(ext, mt). (Some ext, Some mt)) ?two @
            map (\<lambda>(ext, mt). (Some ext, Some mt)) new))"
    by (simp only: entries_fst map_append)
  with d show ?thesis by blast
qed

theorem manifest_extensions_distinct_witness:
  "images (example_assembler [(''README'', Inr ''r''), (''images/a.bmp'', Inr ''a''),
                              (''images/b.bmp'', Inr ''b''), (''c.png'', Inr ''c'')]) =
     Some [(''README'', Inr ''r''), (''images/a.bmp'', Inr ''a''),
           (''images/b.bmp'', Inr ''b''), (''c.png'', Inr ''c'')] \<and>
   None \<notin> (\<lambda>ext. guess_type example_env (''a.'' @ ext)) ` set added_init \<and>
   (\<exists>ds. manifest_defaults example_env
            (example_assembler [(''README'', Inr ''r''), (''images/a.bmp'', Inr ''a''),
                                (''images/b.bmp'', Inr ''b''), (''c.png'', Inr ''c'')]) = Inr ds \<and>
         distinct (map fst ds))"
  using manifest_extensions_distinct [OF example_images example_guess_known]
    example_images example_guess_known by blast

text \<open>
  Claim C6, as the code has it. Under the same two conditions, an extension outside the
  eight fixed ones for which the lookup gives no type, or an empty one, has no
  \<^verbatim>\<open>Default\<close> element; every \<^verbatim>\<open>Default\<close> element other than those of the six looked-up
  extensions has a non-empty content type; \<^verbatim>\<open>rels\<close> and \<^verbatim>\<open>odttf\<close> are declared with their
  constant types, without a lookup; and each of the six extensions is declared with what
  the lookup returns for it.
\<close>

theorem manifest_default_types:
  assumes img: "images self = Some imgs"
    and g: "None \<notin> (\<lambda>ext. guess_type e (''a.'' @ ext)) ` set added_init"
    and ext: "ext \<notin> set added_init \<union> {''rels'', ''odttf''}"
    and unknown: "\<not> truthy (guess_type e (''a.'' @ ext))"
  shows "\<exists>ds. manifest_defaults e self = Inr ds \<and>
           Some ext \<notin> fst ` set ds \<and>
           list_all (\<lambda>(x, ct). x \<in> Some ` set added_init \<or> truthy ct) ds \<and>
           set (map (\<lambda>(x, mt). (Some x, Some mt)) default_parts) \<subseteq> set ds \<and>
           set (map (\<lambda>x. (Some x, guess_type e (''a.'' @ x))) added_init) \<subseteq> set ds"
proof -
  let ?six = "iter_order (iter_strs e) added_init"
  let ?two = "iter_order (iter_pairs e) default_parts"
  let ?A = "map (\<lambda>x. (Some x, guess_type e (''a.'' @ x))) ?six"
  let ?B = "map (\<lambda>(ext, mt). (Some ext, Some mt)) ?two"
  from manifest_defaults_entries [OF img g] obtain new where
    d: "manifest_defaults e self = Inr (?A @ ?B @ map (\<lambda>(ext, mt). (Some ext, Some mt)) new)"
    and p: "set (map fst new) \<inter> (set added_init \<union> {''rels'', ''odttf''}) = {}"
      "\<forall>(ext, mt)\<in>set new. mt \<noteq> [] \<and> guess_type e (''a.'' @ ext) = Some mt"
    by (elim exE conjE)
  let ?C = "map (\<lambda>(ext, mt). (Some ext, Some mt)) new"
  have two: "set ?two = set default_parts" by (rule iter_order_set)
  have six: "set ?six = set added_init" by (rule iter_order_set)
  have fstA: "fst ` set ?A = Some ` set added_init" by (simp add: six image_image)
  have fstB: "fst ` set ?B = Some ` fst ` set default_parts"
    by (simp add: two image_image split_def)
  have fstC: "fst ` set ?C = Some ` fst ` set new" by (simp add: image_image split_def)
  have "ext \<notin> fst ` set default_parts" using ext by (auto simp: default_parts_def)
  moreover have "ext \<notin> fst ` set new"
  proof
    assume "ext \<in> fst ` set new"
    then obtain mt where "(ext, mt) \<in> set new" by auto
    with p(2) have "mt \<noteq> []" "guess_type e (''a.'' @ ext) = Some mt" by auto
    with unknown show False by (simp add: truthy_def)
  qed
  moreover have "fst ` set (?A @ ?B @ ?C) =
      Some ` (set added_init \<union> fst ` set default_parts \<union> fst ` set new)"
    by (simp only: set_append image_Un fstA fstB fstC Un_assoc)
  ultimately have 1: "Some ext \<notin> fst ` set (?A @ ?B @ ?C)"
    using ext by auto
  have "list_all (\<lambda>(x, ct). x \<in> Some ` set added_init \<or> truthy ct) ?A"
    by (simp add: list_all_iff six)
  moreover have "list_all (\<lambda>(x, ct). x \<in> Some ` set added_init \<or> truthy ct) ?B"
    using default_parts_types by (auto simp: list_all_iff two truthy_def)
  moreover have "list_all (\<lambda>(x, ct). x \<in> Some ` set added_init \<or> truthy ct) ?C"
    using p(2) by (auto simp: list_all_iff truthy_def)
  ultimately have 2: "list_all (\<lambda>(x, ct). x \<in> Some ` set added_init \<or> truthy ct) (?A @ ?B @ ?C)"
    by simp
  have 3: "set (map (\<lambda>(x, mt). (Some x, Some mt)) default_parts) \<subseteq> set (?A @ ?B @ ?C)"
    by (auto simp: two)
  have 4: "set (map (\<lambda>x. (Some x, guess_type e (''a.'' @ x))) added_init) \<subseteq> set (?A @ ?B @ ?C)"
    by (auto simp: six)
  from d 1 2 3 4 show ?thesis
    by (intro exI [of _ "?A @ ?B @ ?C"] conjI) assumption+
qed

theorem manifest_default_types_witness:
  "images (example_assembler [(''README'', Inr ''r''), (''images/a.bmp'', Inr ''a'')]) =
     Some [(''README'', Inr ''r''), (''images/a.bmp'', Inr ''a'')] \<and>
   None \<notin> (\<lambda>ext. guess_type example_env (''a.'' @ ext)) ` set added_init \<and>
   ''README'' \<notin> set added_init \<union> {''rels'', ''odttf''} \<and>
   \<not> truthy (guess_type example_env (''a.'' @ ''README'')) \<and>
   (\<exists>ds. manifest_defaults example_env
            (example_assembler [(''README'', Inr ''r''), (''images/a.bmp'', Inr ''a'')]) = Inr ds \<and>
         Some ''README'' \<notin> fst ` set ds \<and>
         list_all (\<lambda>(x, ct). x \<in> Some ` set added_init \<or> truthy ct) ds \<and>
         set (map (\<lambda>(x, mt). (Some x, Some mt)) default_parts) \<subseteq> set ds \<and>
         set (map (\<lambda>x. (Some x, guess_type example_env (''a.'' @ x))) added_init) \<subseteq> set ds)"
proof -
  have e: "''README'' \<notin> set added_init \<union> {''rels'', ''odttf''}"
    by (simp add: added_init_def)
  have u: "\<not> truthy (guess_type example_env (''a.'' @ ''README''))"
    by (simp add: example_env_fields example_guess_type_def truthy_def)
  from manifest_default_types [OF example_images example_guess_known e u]
    example_images example_guess_known e u
  show ?thesis by (intro conjI) assumption+
qed

text \<open>
  The fixed extensions are not skipped when the lookup fails. With a lookup that knows
  the image and XML types but not \<^verbatim>\<open>rels\<close>, the manifest still declares \<^verbatim>\<open>rels\<close>; and
  with a lookup that does not know \<^verbatim>\<open>png\<close>, \<^verbatim>\<open>contenttypes\<close> raises \<open>KeyError\<close>
  instead of returning a manifest without it.
\<close>

theorem manifest_skip_counterexample:
  "guess_type example_env (''a.'' @ ''rels'') = None \<and>
   manifest_defaults example_env (example_assembler []) =
     Inr [(Some ''xml'', Some ''application/xml''),
          (Some ''svg'', Some ''image/svg+xml''),
          (Some ''jpg'', Some ''image/jpeg''),
          (Some ''jpeg'', Some ''image/jpeg''),
          (Some ''gif'', Some ''image/gif''),
          (Some ''png'', Some ''image/png''),
          (Some ''odttf'', Some ''application/vnd.openxmlformats-officedocument.obfuscatedFont''),
          (Some ''rels'', Some ''application/vnd.openxmlformats-package.relationships+xml'')] \<and>
   guess_type no_guess_env (''a.'' @ ''png'') = None \<and>
   contenttypes no_guess_env (example_assembler []) = Inl KeyError"
  by code_simp

subsection \<open>Application properties\<close>

lemma Company_other:
  "qname N ''Application'' \<noteq> qname N ''Company''"
  "qname N ''AppVersion'' \<noteq> qname N ''Company''"
  "qname N ''DocSecurity'' \<noteq> qname N ''Company''"
  "qname N ''HyperlinksChanged'' \<noteq> qname N ''Company''"
  "qname N ''LinksUpToDate'' \<noteq> qname N ''Company''"
  "qname N ''ScaleCrop'' \<noteq> qname N ''Company''"
  "qname N ''SharedDoc'' \<noteq> qname N ''Company''"
  by (simp_all add: qname_same_ns)

lemma app_version_valid:
  "xml_valid (fmt_0d 2 a @ ''.'' @ fmt_0d 4 b)"
  by (simp add: xml_valid_append xml_valid_Cons fmt_0d_valid xml_char_def)

lemma app_literals:
  "xml_valid (appname e) \<Longrightarrow>
   collect
     [E_text N ''Application'' (appname e),
      E_text N ''AppVersion''
        (fmt_0d 2 (fst (numeric_version e)) @ ''.'' @ fmt_0d 4 (fst (snd (numeric_version e)))),
      E_text N ''DocSecurity'' ''0'',
      E_text N ''HyperlinksChanged'' ''false'',
      E_text N ''LinksUpToDate'' ''true'',
      E_text N ''ScaleCrop'' ''false'',
      E_text N ''SharedDoc'' ''false''] =
   Inr [text_element N ''Application'' (appname e),
        text_element N ''AppVersion''
          (fmt_0d 2 (fst (numeric_version e)) @ ''.'' @ fmt_0d 4 (fst (snd (numeric_version e)))),
        text_element N ''DocSecurity'' ''0'',
        text_element N ''HyperlinksChanged'' ''false'',
        text_element N ''LinksUpToDate'' ''true'',
        text_element N ''ScaleCrop'' ''false'',
        text_element N ''SharedDoc'' ''false'']"
proof -
  assume a: "xml_valid (appname e)"
  note v = app_version_valid [of "fst (numeric_version e)" "fst (snd (numeric_version e))"]
  have E: "E_text N name x = Inr (text_element N name x)" if "xml_valid x" for name x
    using that by (simp add: E_text_def)
  show ?thesis
    by (simp only: E [OF a] E [OF v] E [OF lit_valid(1)] E [OF lit_valid(3)] E [OF lit_valid(4)]
        collect.simps sum.case)
qed

text \<open>\<^verbatim>\<open>appproperties\<close> case by case, for an application name \<^verbatim>\<open>lxml\<close> accepts.\<close>

lemma appproperties_result:
  assumes "xml_valid (appname e)"
  shows "appproperties e self =
     (case mi self of
        None \<Rightarrow> Inl AttributeError
      | Some m \<Rightarrow>
          (case publisher m of
             None \<Rightarrow>
               Inr (XmlDocument (Element (qname (namespaces e ''ep'') ''Properties'') [] None
                 [text_element (namespaces e ''ep'') ''Application'' (appname e),
                  text_element (namespaces e ''ep'') ''AppVersion''
                    (fmt_0d 2 (fst (numeric_version e)) @ ''.'' @
                     fmt_0d 4 (fst (snd (numeric_version e)))),
                  text_element (namespaces e ''ep'') ''DocSecurity'' ''0'',
                  text_element (namespaces e ''ep'') ''HyperlinksChanged'' ''false'',
                  text_element (namespaces e ''ep'') ''LinksUpToDate'' ''true'',
                  text_element (namespaces e ''ep'') ''ScaleCrop'' ''false'',
                  text_element (namespaces e ''ep'') ''SharedDoc'' ''false'']))
           | Some pub \<Rightarrow>
               if pub = []
               then Inr (XmlDocument (Element (qname (namespaces e ''ep'') ''Properties'') [] None
                 [text_element (namespaces e ''ep'') ''Application'' (appname e),
                  text_element (namespaces e ''ep'') ''AppVersion''
                    (fmt_0d 2 (fst (numeric_version e)) @ ''.'' @
                     fmt_0d 4 (fst (snd (numeric_version e)))),
                  text_element (namespaces e ''ep'') ''DocSecurity'' ''0'',
                  text_element (namespaces e ''ep'') ''HyperlinksChanged'' ''false'',
                  text_element (namespaces e ''ep'') ''LinksUpToDate'' ''true'',
                  text_element (namespaces e ''ep'') ''ScaleCrop'' ''false'',
                  text_element (namespaces e ''ep'') ''SharedDoc'' ''false'']))
               else if xml_valid pub
               then Inr (XmlDocument (Element (qname (namespaces e ''ep'') ''Properties'') [] None
                 [text_element (namespaces e ''ep'') ''Application'' (appname e),
                  text_element (namespaces e ''ep'') ''AppVersion''
                    (fmt_0d 2 (fst (numeric_version e)) @ ''.'' @
                     fmt_0d 4 (fst (snd (numeric_version e)))),
                  text_element (namespaces e ''ep'') ''DocSecurity'' ''0'',
                  text_element (namespaces e ''ep'') ''HyperlinksChanged'' ''false'',
                  text_element (namespaces e ''ep'') ''LinksUpToDate'' ''true'',
                  text_element (namespaces e ''ep'') ''ScaleCrop'' ''false'',
                  text_element (namespaces e ''ep'') ''SharedDoc'' ''false'',
                  text_element (namespaces e ''ep'') ''Company'' pub]))
               else Inl ValueError))"
  unfolding appproperties_def Let_def app_literals [OF assms]
  by (simp add: xml2str_def append_child_def E_text_def split: option.split)

lemma example_mi:
  "mi ((example_assembler imgs)\<lparr>mi := Some m\<rparr>) = Some m"
  by simp

text \<open>
  Claim C9, as the code has it. Let \<^verbatim>\<open>mi\<close> be set, and let the application name and the
  publisher, if there is one, be strings \<^verbatim>\<open>lxml\<close> accepts. Then \<^verbatim>\<open>appproperties\<close> returns
  a document whose first seven children are the application name, the version,
  \<^verbatim>\<open>DocSecurity\<close> with the text \<^verbatim>\<open>0\<close>, and the flags \<^verbatim>\<open>HyperlinksChanged\<close> (false),
  \<^verbatim>\<open>LinksUpToDate\<close> (true), \<^verbatim>\<open>ScaleCrop\<close> (false) and \<^verbatim>\<open>SharedDoc\<close> (false). It has a
  \<^verbatim>\<open>Company\<close> element, holding the publisher, if and only if the publisher is a
  non-empty string: the code tests the truth value of \<^verbatim>\<open>mi.publisher\<close>, which is false
  for \<^verbatim>\<open>None\<close> and for the empty string. With an accepted application name,
  \<^verbatim>\<open>appproperties\<close> raises \<open>ValueError\<close> exactly when \<^verbatim>\<open>mi\<close> is set and the publisher is
  a string \<^verbatim>\<open>lxml\<close> rejects.
\<close>

theorem app_properties:
  assumes mi: "mi self = Some m" and app: "xml_valid (appname e)"
    and pub: "opt_valid (publisher m)"
  shows "(\<exists>doc. appproperties e self = Inr doc \<and>
     take 7 (root_children doc) =
       [text_element (namespaces e ''ep'') ''Application'' (appname e),
        text_element (namespaces e ''ep'') ''AppVersion''
          (fmt_0d 2 (fst (numeric_version e)) @ ''.'' @ fmt_0d 4 (fst (snd (numeric_version e)))),
        text_element (namespaces e ''ep'') ''DocSecurity'' ''0'',
        text_element (namespaces e ''ep'') ''HyperlinksChanged'' ''false'',
        text_element (namespaces e ''ep'') ''LinksUpToDate'' ''true'',
        text_element (namespaces e ''ep'') ''ScaleCrop'' ''false'',
        text_element (namespaces e ''ep'') ''SharedDoc'' ''false''] \<and>
     filter (\<lambda>c. tag c = qname (namespaces e ''ep'') ''Company'') (root_children doc) =
       (case publisher m of
          None \<Rightarrow> []
        | Some pub \<Rightarrow> if pub = [] then [] else [text_element (namespaces e ''ep'') ''Company'' pub]) \<and>
     list_ex (\<lambda>c. tag c = qname (namespaces e ''ep'') ''Company'') (root_children doc) =
       truthy (publisher m)) \<and>
   (appproperties e self' = Inl ValueError) =
     (case mi self' of None \<Rightarrow> False | Some m' \<Rightarrow> \<not> opt_valid (publisher m'))"
proof -
  have 2: "(appproperties e self' = Inl ValueError) =
     (case mi self' of None \<Rightarrow> False | Some m' \<Rightarrow> \<not> opt_valid (publisher m'))"
    by (simp add: appproperties_result [OF app] opt_valid_def xml_valid_Nil split: option.split)
  have 1: "\<exists>doc. appproperties e self = Inr doc \<and>
     take 7 (root_children doc) =
       [text_element (namespaces e ''ep'') ''Application'' (appname e),
        text_element (namespaces e ''ep'') ''AppVersion''
          (fmt_0d 2 (fst (numeric_version e)) @ ''.'' @ fmt_0d 4 (fst (snd (numeric_version e)))),
        text_element (namespaces e ''ep'') ''DocSecurity'' ''0'',
        text_element (namespaces e ''ep'') ''HyperlinksChanged'' ''false'',
        text_element (namespaces e ''ep'') ''LinksUpToDate'' ''true'',
        text_element (namespaces e ''ep'') ''ScaleCrop'' ''false'',
        text_element (namespaces e ''ep'') ''SharedDoc'' ''false''] \<and>
     filter (\<lambda>c. tag c = qname (namespaces e ''ep'') ''Company'') (root_children doc) =
       (case publisher m of
          None \<Rightarrow> []
        | Some pub \<Rightarrow> if pub = [] then [] else [text_element (namespaces e ''ep'') ''Company'' pub]) \<and>
     list_ex (\<lambda>c. tag c = qname (namespaces e ''ep'') ''Company'') (root_children doc) =
       truthy (publisher m)"
  proof (cases "publisher m")
    case None
    with mi show ?thesis
      by (simp add: appproperties_result [OF app] root_children_def text_element_def
          Company_other truthy_def)
  next
    case (Some p)
    with pub have "xml_valid p" by (simp add: opt_valid_def)
    with mi Some show ?thesis
      by (cases "p = []")
         (simp_all add: appproperties_result [OF app] root_children_def text_element_def
          Company_other truthy_def)
  qed
  from 1 2 show ?thesis by (rule conjI)
qed

lemma example_appname: "xml_valid (appname example_env)"
  by code_simp

theorem app_properties_witness:
  "mi ((example_assembler [])\<lparr>mi := Some (example_metadata (Some ''Acme''))\<rparr>) =
     Some (example_metadata (Some ''Acme'')) \<and>
   xml_valid (appname example_env) \<and>
   opt_valid (publisher (example_metadata (Some ''Acme''))) \<and>
   truthy (publisher (example_metadata (Some ''Acme''))) \<and>
   (\<exists>doc. appproperties example_env
            ((example_assembler [])\<lparr>mi := Some (example_metadata (Some ''Acme''))\<rparr>) = Inr doc \<and>
      list_ex (\<lambda>c. tag c = qname (namespaces example_env ''ep'') ''Company'') (root_children doc) \<and>
      filter (\<lambda>c. tag c = qname (namespaces example_env ''ep'') ''Company'') (root_children doc) =
        [text_element (namespaces example_env ''ep'') ''Company'' ''Acme''])"
proof -
  have t: "truthy (publisher (example_metadata (Some ''Acme'')))"
    by (simp add: example_metadata_def truthy_def)
  have v: "opt_valid (publisher (example_metadata (Some ''Acme'')))" by code_simp
  have p: "publisher (example_metadata (Some ''Acme'')) = Some ''Acme''"
    by (simp add: example_metadata_def)
  note m = example_mi [where imgs = "[]" and m = "example_metadata (Some ''Acme'')"]
  from app_properties [OF m example_appname v, where self' = "example_assembler []"]
  obtain doc where "appproperties example_env
            ((example_assembler [])\<lparr>mi := Some (example_metadata (Some ''Acme''))\<rparr>) = Inr doc"
    and "filter (\<lambda>c. tag c = qname (namespaces example_env ''ep'') ''Company'') (root_children doc) =
       (case publisher (example_metadata (Some ''Acme'')) of
          None \<Rightarrow> []
        | Some pub \<Rightarrow> if pub = [] then [] else [text_element (namespaces example_env ''ep'') ''Company'' pub])"
    and "list_ex (\<lambda>c. tag c = qname (namespaces example_env ''ep'') ''Company'') (root_children doc) =
       truthy (publisher (example_metadata (Some ''Acme'')))"
    by (elim exE conjE)
  with t p v m example_appname show ?thesis
    by (intro conjI exI [of _ doc]) simp_all
qed

text \<open>
  A record whose publisher is present and is the empty string gets no \<^verbatim>\<open>Company\<close>
  element.
\<close>

theorem empty_publisher_counterexample:
  "publisher (example_metadata (Some [])) = Some [] \<and>
   appproperties example_env ((example_assembler [])\<lparr>mi := Some (example_metadata (Some []))\<rparr>) =
     Inr (XmlDocument
       (Element ''{urn:ep}Properties'' [] None
         [Element ''{urn:ep}Application'' [] (Some ''calibre'') [],
          Element ''{urn:ep}AppVersion'' [] (Some ''01.0015'') [],
          Element ''{urn:ep}DocSecurity'' [] (Some ''0'') [],
          Element ''{urn:ep}HyperlinksChanged'' [] (Some ''false'') [],
          Element ''{urn:ep}LinksUpToDate'' [] (Some ''true'') [],
          Element ''{urn:ep}ScaleCrop'' [] (Some ''false'') [],
          Element ''{urn:ep}SharedDoc'' [] (Some ''false'') []]))"
  by code_simp

subsection \<open>Writing the archive\<close>

lemma contenttypes_ok:
  assumes "images self = Some imgs"
    and "None \<notin> (\<lambda>ext. guess_type e (''a.'' @ ext)) ` set added_init"
  shows "\<exists>ct. contenttypes e self = Inr ct"
  using manifest_entries [OF assms] by (elim exE conjE) (rule exI)

lemma write_images_ok:
  "list_all (\<lambda>(fname, data_getter). \<not> isl data_getter) items \<Longrightarrow>
   write_images items (zf, calls) =
     Inr (zf @ map (\<lambda>(fname, data_getter). (fname, Bytes (projr data_getter))) items,
          calls @ map fst items)"
proof (induction items arbitrary: zf calls)
  case Nil
  then show ?case by simp
next
  case (Cons a items)
  obtain fname g where a: "a = (fname, g)" by (cases a)
  with Cons.prems obtain data where g: "g = Inr data" by (cases g) auto
  from Cons.prems have "list_all (\<lambda>(fname, data_getter). \<not> isl data_getter) items" by simp
  from Cons.IH [OF this] show ?case by (simp add: a g)
qed

lemma appproperties_ok:
  assumes "mi self = Some m" and "xml_valid (appname e)" and "opt_valid (publisher m)"
  shows "\<exists>app. appproperties e self = Inr app"
  using assms
  by (auto simp: appproperties_result opt_valid_def split: option.split)

lemma appproperties_fails:
  "xml_valid (appname e) \<Longrightarrow> (appproperties e self = Inl AttributeError) = (mi self = None)"
  by (simp add: appproperties_result split: option.split)

lemma write_result:
  assumes img: "images self = Some imgs" and doc: "document self = Some doc"
    and sty: "styles self = Some sty"
    and g: "None \<notin> (\<lambda>ext. guess_type e (''a.'' @ ext)) ` set added_init"
    and ok: "list_all (\<lambda>(fname, data_getter). \<not> isl data_getter) imgs"
    and app: "xml_valid (appname e)"
    and pv: "props_valid e oeb" and pubv: "opt_valid (publisher oeb)"
    and relv: "list_all item_valid (rmap (document_relationships self))"
  shows "\<exists>ct core app rels. contenttypes e self = Inr ct \<and>
     fst (convert_metadata e now self oeb) = Inr core \<and>
     appproperties e (self\<lparr>mi := Some oeb\<rparr>) = Inr app \<and>
     serialize e (document_relationships self) = Inr rels \<and>
     DOCX_write e now self oeb =
       Inr ([(''[Content_Types].xml'', ct), (''_rels/.rels'', containerrels),
             (''docProps/core.xml'', core),
             (''docProps/app.xml'', app),
             (''word/webSettings.xml'', websettings e),
             (''word/document.xml'', xml2str doc),
             (''word/styles.xml'', xml2str sty),
             (''word/fontTable.xml'', xml2str (font_table self)),
             (''word/_rels/document.xml.rels'', rels),
             (''word/_rels/fontTable.xml.rels'', xml2str (embedded_fonts self))] @
            map (\<lambda>(fname, data_getter). (fname, Bytes (projr data_getter)))
              (iter_order (iter_images e) imgs) @
            map (\<lambda>(fname, data). (fname, Bytes data)) (iter_order (iter_pairs e) (fonts self)),
            map fst (iter_order (iter_images e) imgs),
            self\<lparr>mi := Some oeb\<rparr>)"
proof -
  let ?self1 = "self\<lparr>mi := Some oeb\<rparr>"
  from contenttypes_ok [OF img g] obtain ct where ct: "contenttypes e self = Inr ct" ..
  from convert_metadata_ok [OF pv, of now self] obtain core where
    core: "fst (convert_metadata e now self oeb) = Inr core" by blast
  have s1: "snd (convert_metadata e now self oeb) = ?self1" by (rule convert_metadata_state)
  have "mi ?self1 = Some oeb" by simp
  from appproperties_ok [OF this app pubv] obtain app where app': "appproperties e ?self1 = Inr app" ..
  from relv obtain rels where rels: "serialize e (document_relationships self) = Inr rels"
    by (simp add: serialize_result)
  have f: "document ?self1 = Some doc" "styles ?self1 = Some sty" "images ?self1 = Some imgs"
    "font_table ?self1 = font_table self" "embedded_fonts ?self1 = embedded_fonts self"
    "document_relationships ?self1 = document_relationships self" "fonts ?self1 = fonts self"
    by (simp_all add: img doc sty)
  have w: "write_images (iter_order (iter_images e) imgs) (zf, []) =
     Inr (zf @ map (\<lambda>(fname, data_getter). (fname, Bytes (projr data_getter)))
                 (iter_order (iter_images e) imgs),
          map fst (iter_order (iter_images e) imgs))" for zf
    using write_images_ok [of "iter_order (iter_images e) imgs" zf "[]"] ok
    by (simp add: iter_order_list_all)
  have "DOCX_write e now self oeb =
       Inr ([(''[Content_Types].xml'', ct), (''_rels/.rels'', containerrels),
             (''docProps/core.xml'', core),
             (''docProps/app.xml'', app),
             (''word/webSettings.xml'', websettings e),
             (''word/document.xml'', xml2str doc),
             (''word/styles.xml'', xml2str sty),
             (''word/fontTable.xml'', xml2str (font_table self)),
             (''word/_rels/document.xml.rels'', rels),
             (''word/_rels/fontTable.xml.rels'', xml2str (embedded_fonts self))] @
            map (\<lambda>(fname, data_getter). (fname, Bytes (projr data_getter)))
              (iter_order (iter_images e) imgs) @
            map (\<lambda>(fname, data). (fname, Bytes data)) (iter_order (iter_pairs e) (fonts self)),
            map fst (iter_order (iter_images e) imgs), ?self1)"
    by (simp only: DOCX_write_def Let_def ct sum.case core s1 app' f option.case rels w prod.case
        write_fonts_def append_Cons append_Nil append_assoc)
  with ct core app' rels show ?thesis
    by (intro exI [of _ ct] exI [of _ core] exI [of _ app] exI [of _ rels] conjI) assumption+
qed
lemma entry_names:
  "map fst (map (\<lambda>(fname, data_getter). (fname, Bytes (projr data_getter))) xs) = map fst xs"
  "map fst (map (\<lambda>(fname, data). (fname, Bytes data)) ys) = map fst ys"
  by (simp_all add: split_def)

lemma example_package_fields:
  "images example_package = Some [(''media/a.png'', Inr ''A''), (''media/b.png'', Inr ''B'')]"
  "document example_package = Some (Element (qname ''urn:w'' ''document'') [] None [])"
  "styles example_package = Some (Element (qname ''urn:w'' ''styles'') [] None [])"
  "fonts example_package = [(''word/fonts/f1.odttf'', ''F'')]"
  "mi example_package = None"
  by (simp_all add: example_package_def example_assembler_def DOCX_init_def)

lemma example_getters:
  "list_all (\<lambda>(fname, data_getter). \<not> isl data_getter)
     [(''media/a.png'', Inr ''A''), (''media/b.png'', Inr ''B'')]"
  by simp

text \<open>
  Claim C8. Let the attributes \<^verbatim>\<open>images\<close>, \<^verbatim>\<open>document\<close> and \<^verbatim>\<open>styles\<close> be set, let the
  lookup know a type for the six built-in extensions, let every \<^verbatim>\<open>data_getter\<close>
  return bytes, and let the application name, the texts of the metadata record, its
  publisher and the items of the relationship registry be strings \<^verbatim>\<open>lxml\<close> accepts. Then
  \<^verbatim>\<open>write\<close> returns; the names of the archive's entries are the ten fixed names in the
  order of the source, then the name of every image, then the name of every font, each
  image and font once, in the order in which the dicts yield them; the entry of an image
  holds the bytes its \<^verbatim>\<open>data_getter\<close> returned and the entry of a font holds its data;
  and the log of the \<^verbatim>\<open>data_getter\<close> calls is the list of the image names in the order
  of their entries, every image once.
\<close>

theorem write_archive:
  assumes img: "images self = Some imgs" and doc: "document self = Some doc"
    and sty: "styles self = Some sty"
    and g: "None \<notin> (\<lambda>ext. guess_type e (''a.'' @ ext)) ` set added_init"
    and ok: "list_all (\<lambda>(fname, data_getter). \<not> isl data_getter) imgs"
    and app: "xml_valid (appname e)"
    and pv: "props_valid e oeb" and pubv: "opt_valid (publisher oeb)"
    and relv: "list_all item_valid (rmap (document_relationships self))"
  shows "\<exists>zf calls self'. DOCX_write e now self oeb = Inr (zf, calls, self') \<and>
     map fst zf =
       [''[Content_Types].xml'', ''_rels/.rels'', ''docProps/core.xml'', ''docProps/app.xml'',
        ''word/webSettings.xml'', ''word/document.xml'', ''word/styles.xml'',
        ''word/fontTable.xml'', ''word/_rels/document.xml.rels'',
        ''word/_rels/fontTable.xml.rels''] @
       map fst (iter_order (iter_images e) imgs) @
       map fst (iter_order (iter_pairs e) (fonts self)) \<and>
     drop 10 zf =
       map (\<lambda>(fname, data_getter). (fname, Bytes (projr data_getter)))
         (iter_order (iter_images e) imgs) @
       map (\<lambda>(fname, data). (fname, Bytes data)) (iter_order (iter_pairs e) (fonts self)) \<and>
     calls = map fst (iter_order (iter_images e) imgs) \<and>
     mset calls = mset (map fst imgs) \<and>
     mset (map fst (drop 10 zf)) = mset (map fst imgs) + mset (map fst (fonts self))"
proof -
  from write_result [OF img doc sty g ok app pv pubv relv, of now] obtain ct core app rels where
    w: "DOCX_write e now self oeb =
       Inr ([(''[Content_Types].xml'', ct), (''_rels/.rels'', containerrels),
             (''docProps/core.xml'', core),
             (''docProps/app.xml'', app),
             (''word/webSettings.xml'', websettings e),
             (''word/document.xml'', xml2str doc),
             (''word/styles.xml'', xml2str sty),
             (''word/fontTable.xml'', xml2str (font_table self)),
             (''word/_rels/document.xml.rels'', rels),
             (''word/_rels/fontTable.xml.rels'', xml2str (embedded_fonts self))] @
            map (\<lambda>(fname, data_getter). (fname, Bytes (projr data_getter)))
              (iter_order (iter_images e) imgs) @
            map (\<lambda>(fname, data). (fname, Bytes data)) (iter_order (iter_pairs e) (fonts self)),
            map fst (iter_order (iter_images e) imgs),
            self\<lparr>mi := Some oeb\<rparr>)"
    by (elim exE conjE)
  let ?I = "map (\<lambda>(fname, data_getter). (fname, Bytes (projr data_getter)))
              (iter_order (iter_images e) imgs)"
  let ?F = "map (\<lambda>(fname, data). (fname, Bytes data)) (iter_order (iter_pairs e) (fonts self))"
  let ?fixed = "[(''[Content_Types].xml'', ct), (''_rels/.rels'', containerrels),
             (''docProps/core.xml'', core),
             (''docProps/app.xml'', app),
             (''word/webSettings.xml'', websettings e),
             (''word/document.xml'', xml2str doc),
             (''word/styles.xml'', xml2str sty),
             (''word/fontTable.xml'', xml2str (font_table self)),
             (''word/_rels/document.xml.rels'', rels),
             (''word/_rels/fontTable.xml.rels'', xml2str (embedded_fonts self))]"
  have n: "map fst (?fixed @ ?I @ ?F) =
       [''[Content_Types].xml'', ''_rels/.rels'', ''docProps/core.xml'', ''docProps/app.xml'',
        ''word/webSettings.xml'', ''word/document.xml'', ''word/styles.xml'',
        ''word/fontTable.xml'', ''word/_rels/document.xml.rels'',
        ''word/_rels/fontTable.xml.rels''] @
       map fst (iter_order (iter_images e) imgs) @
       map fst (iter_order (iter_pairs e) (fonts self))"
    by (simp only: map_append entry_names list.map fst_conv)
  have d: "drop 10 (?fixed @ ?I @ ?F) = ?I @ ?F" by simp
  have m1: "mset (map fst (iter_order (iter_images e) imgs)) = mset (map fst imgs)"
    by (simp add: iter_order_mset)
  have m2: "mset (map fst (iter_order (iter_pairs e) (fonts self))) = mset (map fst (fonts self))"
    by (simp add: iter_order_mset)
  have m3: "mset (map fst (drop 10 (?fixed @ ?I @ ?F))) =
      mset (map fst imgs) + mset (map fst (fonts self))"
    by (simp only: d map_append entry_names mset_append m1 m2)
  from w n d m1 m3 show ?thesis
    by (intro exI [of _ "?fixed @ ?I @ ?F"] exI [of _ "map fst (iter_order (iter_images e) imgs)"]
        exI [of _ "self\<lparr>mi := Some oeb\<rparr>"] conjI refl) assumption+
qed

lemma example_package_registry:
  "list_all item_valid (rmap (document_relationships example_package))"
  by code_simp

lemma example_publishers:
  "opt_valid (publisher (example_metadata None))"
  "opt_valid (publisher (example_metadata (Some ''Acme'')))"
  "props_valid example_env (example_metadata (Some ''Acme''))"
  by code_simp+

lemma example_write_raises:
  "DOCX_write example_env example_now example_package (example_titled bad_title) = Inl ValueError"
  by code_simp

theorem write_archive_witness:
  "images example_package = Some [(''media/a.png'', Inr ''A''), (''media/b.png'', Inr ''B'')] \<and>
   document example_package = Some (Element (qname ''urn:w'' ''document'') [] None []) \<and>
   styles example_package = Some (Element (qname ''urn:w'' ''styles'') [] None []) \<and>
   None \<notin> (\<lambda>ext. guess_type example_env (''a.'' @ ext)) ` set added_init \<and>
   list_all (\<lambda>(fname, data_getter). \<not> isl data_getter)
     [(''media/a.png'', Inr ''A''), (''media/b.png'', Inr ''B'')] \<and>
   xml_valid (appname example_env) \<and>
   props_valid example_env (example_metadata None) \<and>
   opt_valid (publisher (example_metadata None)) \<and>
   list_all item_valid (rmap (document_relationships example_package)) \<and>
   (\<exists>zf calls self'.
      DOCX_write example_env example_now example_package (example_metadata None) =
        Inr (zf, calls, self') \<and>
      map fst zf =
        [''[Content_Types].xml'', ''_rels/.rels'', ''docProps/core.xml'', ''docProps/app.xml'',
         ''word/webSettings.xml'', ''word/document.xml'', ''word/styles.xml'',
         ''word/fontTable.xml'', ''word/_rels/document.xml.rels'',
         ''word/_rels/fontTable.xml.rels'', ''media/b.png'', ''media/a.png'',
         ''word/fonts/f1.odttf''] \<and>
      drop 10 zf = [(''media/b.png'', Bytes ''B''), (''media/a.png'', Bytes ''A''),
                    (''word/fonts/f1.odttf'', Bytes ''F'')] \<and>
      calls = [''media/b.png'', ''media/a.png''])"
proof -
  from write_archive [OF example_package_fields(1-3) example_guess_known example_getters
      example_appname example_props_valid(1) example_publishers(1) example_package_registry,
      of example_now]
  obtain zf calls self' where
    w: "DOCX_write example_env example_now example_package (example_metadata None) =
        Inr (zf, calls, self')"
    and n: "map fst zf =
       [''[Content_Types].xml'', ''_rels/.rels'', ''docProps/core.xml'', ''docProps/app.xml'',
        ''word/webSettings.xml'', ''word/document.xml'', ''word/styles.xml'',
        ''word/fontTable.xml'', ''word/_rels/document.xml.rels'',
        ''word/_rels/fontTable.xml.rels''] @
       map fst (iter_order (iter_images example_env)
                  [(''media/a.png'', Inr ''A''), (''media/b.png'', Inr ''B'')]) @
       map fst (iter_order (iter_pairs example_env) (fonts example_package))"
    and d: "drop 10 zf =
       map (\<lambda>(fname, data_getter). (fname, Bytes (projr data_getter)))
         (iter_order (iter_images example_env)
            [(''media/a.png'', Inr ''A''), (''media/b.png'', Inr ''B'')]) @
       map (\<lambda>(fname, data). (fname, Bytes data))
         (iter_order (iter_pairs example_env) (fonts example_package))"
    and c: "calls = map fst (iter_order (iter_images example_env)
                  [(''media/a.png'', Inr ''A''), (''media/b.png'', Inr ''B'')])"
    by (elim exE conjE)
  from n have n': "map fst zf =
        [''[Content_Types].xml'', ''_rels/.rels'', ''docProps/core.xml'', ''docProps/app.xml'',
         ''word/webSettings.xml'', ''word/document.xml'', ''word/styles.xml'',
         ''word/fontTable.xml'', ''word/_rels/document.xml.rels'',
         ''word/_rels/fontTable.xml.rels'', ''media/b.png'', ''media/a.png'',
         ''word/fonts/f1.odttf'']"
    by (simp add: example_env_fields iter_order_rev example_package_fields)
  from d have d': "drop 10 zf = [(''media/b.png'', Bytes ''B''), (''media/a.png'', Bytes ''A''),
                    (''word/fonts/f1.odttf'', Bytes ''F'')]"
    by (simp add: example_env_fields iter_order_rev example_package_fields)
  from c have c': "calls = [''media/b.png'', ''media/a.png'']"
    by (simp add: example_env_fields iter_order_rev)
  from w n' d' c' example_package_fields(1-3) example_guess_known example_getters
    example_appname example_props_valid(1) example_publishers(1) example_package_registry
  show ?thesis
    by (intro conjI exI [of _ zf] exI [of _ calls] exI [of _ self']) assumption+
qed

text \<open>
  Claim C10. Let the application name be a string \<^verbatim>\<open>lxml\<close> accepts. A freshly
  constructed assembler has no \<^verbatim>\<open>mi\<close>, and \<^verbatim>\<open>appproperties\<close> on it raises
  \<open>AttributeError\<close>; on any assembler, \<^verbatim>\<open>appproperties\<close> raises \<open>AttributeError\<close>
  exactly when \<^verbatim>\<open>mi\<close> is not set. \<^verbatim>\<open>convert_metadata\<close> sets \<^verbatim>\<open>mi\<close>, whatever it returns.
  Under the conditions of claim C8, whether or not \<^verbatim>\<open>mi\<close> was set before, \<^verbatim>\<open>write\<close>
  returns an archive whose third entry is \<^verbatim>\<open>docProps/core.xml\<close>, holding what
  \<^verbatim>\<open>convert_metadata\<close> returned, and whose fourth entry is \<^verbatim>\<open>docProps/app.xml\<close>, holding
  the application properties of the assembler with \<^verbatim>\<open>mi\<close> as \<^verbatim>\<open>convert_metadata\<close> set it.
\<close>

theorem appproperties_needs_metadata:
  assumes img: "images self = Some imgs" and doc: "document self = Some doc"
    and sty: "styles self = Some sty"
    and g: "None \<notin> (\<lambda>ext. guess_type e (''a.'' @ ext)) ` set added_init"
    and ok: "list_all (\<lambda>(fname, data_getter). \<not> isl data_getter) imgs"
    and app: "xml_valid (appname e)"
    and pv: "props_valid e oeb" and pubv: "opt_valid (publisher oeb)"
    and relv: "list_all item_valid (rmap (document_relationships self))"
  shows "mi (DOCX_init e) = None \<and>
     appproperties e (DOCX_init e) = Inl AttributeError \<and>
     (appproperties e any_self = Inl AttributeError) = (mi any_self = None) \<and>
     mi (snd (convert_metadata e now any_self any_oeb)) = Some any_oeb \<and>
     (\<exists>zf calls self' core app.
        DOCX_write e now self oeb = Inr (zf, calls, self') \<and>
        fst (convert_metadata e now self oeb) = Inr core \<and>
        appproperties e (self\<lparr>mi := Some oeb\<rparr>) = Inr app \<and>
        zf ! 2 = (''docProps/core.xml'', core) \<and>
        zf ! 3 = (''docProps/app.xml'', app) \<and>
        mi self' = Some oeb)"
proof -
  have 1: "mi (DOCX_init e) = None" by (simp add: DOCX_init_def)
  then have 2: "appproperties e (DOCX_init e) = Inl AttributeError"
    by (simp only: appproperties_fails [OF app])
  have 3: "(appproperties e any_self = Inl AttributeError) = (mi any_self = None)"
    using app by (rule appproperties_fails)
  have 4: "mi (snd (convert_metadata e now any_self any_oeb)) = Some any_oeb"
    by (simp add: convert_metadata_state)
  let ?I = "map (\<lambda>(fname, data_getter). (fname, Bytes (projr data_getter)))
              (iter_order (iter_images e) imgs)"
  let ?F = "map (\<lambda>(fname, data). (fname, Bytes data)) (iter_order (iter_pairs e) (fonts self))"
  from write_result [OF img doc sty g ok app pv pubv relv, of now] obtain ct core a rels where
    core: "fst (convert_metadata e now self oeb) = Inr core"
    and a: "appproperties e (self\<lparr>mi := Some oeb\<rparr>) = Inr a"
    and w: "DOCX_write e now self oeb =
       Inr ([(''[Content_Types].xml'', ct), (''_rels/.rels'', containerrels),
             (''docProps/core.xml'', core),
             (''docProps/app.xml'', a),
             (''word/webSettings.xml'', websettings e),
             (''word/document.xml'', xml2str doc),
             (''word/styles.xml'', xml2str sty),
             (''word/fontTable.xml'', xml2str (font_table self)),
             (''word/_rels/document.xml.rels'', rels),
             (''word/_rels/fontTable.xml.rels'', xml2str (embedded_fonts self))] @ ?I @ ?F,
            map fst (iter_order (iter_images e) imgs),
            self\<lparr>mi := Some oeb\<rparr>)"
    by (elim exE conjE)
  let ?zf = "[(''[Content_Types].xml'', ct), (''_rels/.rels'', containerrels),
             (''docProps/core.xml'', core),
             (''docProps/app.xml'', a),
             (''word/webSettings.xml'', websettings e),
             (''word/document.xml'', xml2str doc),
             (''word/styles.xml'', xml2str sty),
             (''word/fontTable.xml'', xml2str (font_table self)),
             (''word/_rels/document.xml.rels'', rels),
             (''word/_rels/fontTable.xml.rels'', xml2str (embedded_fonts self))] @ ?I @ ?F"
  have e2: "?zf ! 2 = (''docProps/core.xml'', core)" by simp
  have e3: "?zf ! 3 = (''docProps/app.xml'', a)" by simp
  have m: "mi (self\<lparr>mi := Some oeb\<rparr>) = Some oeb" by simp
  from w core a e2 e3 m have
    "\<exists>zf calls self' core app.
        DOCX_write e now self oeb = Inr (zf, calls, self') \<and>
        fst (convert_metadata e now self oeb) = Inr core \<and>
        appproperties e (self\<lparr>mi := Some oeb\<rparr>) = Inr app \<and>
        zf ! 2 = (''docProps/core.xml'', core) \<and>
        zf ! 3 = (''docProps/app.xml'', app) \<and>
        mi self' = Some oeb"
    by (intro exI [of _ ?zf] exI [of _ "map fst (iter_order (iter_images e) imgs)"]
        exI [of _ "self\<lparr>mi := Some oeb\<rparr>"] exI [of _ core] exI [of _ a] conjI) assumption+
  with 1 2 3 4 show ?thesis by (intro conjI) assumption+
qed

theorem appproperties_needs_metadata_witness:
  "images example_package = Some [(''media/a.png'', Inr ''A''), (''media/b.png'', Inr ''B'')] \<and>
   document example_package = Some (Element (qname ''urn:w'' ''document'') [] None []) \<and>
   styles example_package = Some (Element (qname ''urn:w'' ''styles'') [] None []) \<and>
   None \<notin> (\<lambda>ext. guess_type example_env (''a.'' @ ext)) ` set added_init \<and>
   list_all (\<lambda>(fname, data_getter). \<not> isl data_getter)
     [(''media/a.png'', Inr ''A''), (''media/b.png'', Inr ''B'')] \<and>
   xml_valid (appname example_env) \<and>
   props_valid example_env (example_metadata (Some ''Acme'')) \<and>
   opt_valid (publisher (example_metadata (Some ''Acme''))) \<and>
   list_all item_valid (rmap (document_relationships example_package)) \<and>
   mi example_package = None \<and>
   appproperties example_env example_package = Inl AttributeError \<and>
   (\<exists>zf calls self' core app.
      DOCX_write example_env example_now example_package (example_metadata (Some ''Acme'')) =
        Inr (zf, calls, self') \<and>
      fst (convert_metadata example_env example_now example_package
             (example_metadata (Some ''Acme''))) = Inr core \<and>
      appproperties example_env (example_package\<lparr>mi := Some (example_metadata (Some ''Acme''))\<rparr>) =
        Inr app \<and>
      zf ! 2 = (''docProps/core.xml'', core) \<and>
      zf ! 3 = (''docProps/app.xml'', app) \<and>
      mi self' = Some (example_metadata (Some ''Acme'')))"
proof -
  note t = appproperties_needs_metadata [OF example_package_fields(1-3) example_guess_known
      example_getters example_appname example_publishers(3) example_publishers(2)
      example_package_registry,
      where any_self = example_package and now = example_now
        and any_oeb = "example_metadata (Some ''Acme'')"]
  from t have a: "(appproperties example_env example_package = Inl AttributeError) =
      (mi example_package = None)" by (elim conjE)
  with example_package_fields(5) have b: "appproperties example_env example_package = Inl AttributeError"
    by simp
  from t have c: "\<exists>zf calls self' core app.
      DOCX_write example_env example_now example_package (example_metadata (Some ''Acme'')) =
        Inr (zf, calls, self') \<and>
      fst (convert_metadata example_env example_now example_package
             (example_metadata (Some ''Acme''))) = Inr core \<and>
      appproperties example_env (example_package\<lparr>mi := Some (example_metadata (Some ''Acme''))\<rparr>) =
        Inr app \<and>
      zf ! 2 = (''docProps/core.xml'', core) \<and>
      zf ! 3 = (''docProps/app.xml'', app) \<and>
      mi self' = Some (example_metadata (Some ''Acme''))" by (elim conjE)
  from b c example_package_fields(1-3,5) example_guess_known example_getters
    example_appname example_publishers(3) example_publishers(2) example_package_registry
  show ?thesis by (intro conjI) assumption+
qed

end
